theory Spec2Isabelle
  imports Main "HOL-Library.Word"
begin

unbundle bit_operations_syntax

section \<open>The machine the two programs run on\<close>

text \<open>
  Both programs (\<^verbatim>\<open>shm_rw.c\<close>, the Region Mapper, and \<^verbatim>\<open>shm_rw_fixed_addr.c\<close>, the
  Fixed-Address Mapper) are a single \<^verbatim>\<open>main\<close> that talks to the operating system and to a
  mapped window of 64-bit words. The embedding passes a \<open>world\<close> through every statement
  that has an effect and takes the answers of the operating system from an \<open>env\<close>.

  \<^item> \<open>trace\<close> lists, in program order, every system call, every line printed, every fence and
    every access to the mapped window.
  \<^item> \<open>fs\<close> is the set of path names that exist on disk.
  \<^item> \<open>mem\<close> is the content of the window that a successful \<^verbatim>\<open>mmap\<close> hands to the program,
    indexed in 8-byte words from the pointer the program uses (\<^verbatim>\<open>share\<close>, \<^verbatim>\<open>mem_ptr\<close>).
  \<^item> \<open>clock\<close> counts the accesses the program has made to the window.

  The window is a \<^verbatim>\<open>MAP_SHARED\<close> mapping read through a \<^verbatim>\<open>volatile\<close> pointer, so somebody
  else may change it while the program runs: \<open>other_writer e k\<close> is what the rest of the
  machine does to the window just before the program's access number \<open>k\<close>. An environment
  with \<open>other_writer e k = id\<close> for every \<open>k\<close> leaves the window to the program alone.

  The answers of the operating system are fields of \<open>env\<close>: the descriptor \<^verbatim>\<open>open\<close>
  returns for a path (negative: failure), the results of \<^verbatim>\<open>ftruncate\<close>, \<^verbatim>\<open>munmap\<close> and
  \<^verbatim>\<open>close\<close>, the address \<^verbatim>\<open>mmap\<close> returns for the file of a path, whether \<^verbatim>\<open>unlink\<close>
  succeeds, the value of \<^verbatim>\<open>sysconf(_SC_PAGE_SIZE)\<close>, and the text of \<^verbatim>\<open>strerror(errno)\<close>.
  Each call site runs at most once, so one answer per call (per path for \<^verbatim>\<open>open\<close> and
  \<^verbatim>\<open>mmap\<close>) is all a run can observe.

  Both programs use \<^verbatim>\<open>mfence\<close>, so the target is x86-64: \<^verbatim>\<open>unsigned long\<close>, \<^verbatim>\<open>size_t\<close>,
  \<^verbatim>\<open>uintptr_t\<close>, \<^verbatim>\<open>uint64_t\<close> and pointers are 64-bit words. Descriptors, return codes and
  the two flags \<^verbatim>\<open>ok\<close> and \<^verbatim>\<open>test_passed\<close> are \<open>int\<close>; the loop counters only run to 128 and
  to 4 and are \<open>nat\<close>. A line printed is recorded as its format string with its arguments.
\<close>

type_synonym u64 = "64 word"

datatype arg = AInt int | ASize nat | ALong u64 | AHex u64 | APtr u64 | AStr string

datatype event =
    Printf string "arg list"
  | Perror string
  | Open string
  | Ftruncate int u64
  | Mmap u64 int u64
  | Munmap u64 u64
  | Close int
  | Access string
  | Unlink string
  | Memset nat nat
  | Store nat u64
  | Load nat u64
  | Fence

record env =
  open_ret :: "string \<Rightarrow> int"
  ftruncate_ret :: int
  mmap_ret :: "string \<Rightarrow> u64"
  munmap_ret :: int
  close_ret :: int
  unlink_ok :: bool
  page_size :: u64
  strerror_errno :: string
  other_writer :: "nat \<Rightarrow> (nat \<Rightarrow> u64) \<Rightarrow> (nat \<Rightarrow> u64)"

record world =
  fs :: "string set"
  mem :: "nat \<Rightarrow> u64"
  clock :: nat
  trace :: "event list"

definition emit :: "event \<Rightarrow> world \<Rightarrow> world" where
  "emit ev w = w\<lparr>trace := trace w @ [ev]\<rparr>"

definition printf :: "string \<Rightarrow> arg list \<Rightarrow> world \<Rightarrow> world" where
  "printf fmt as w = emit (Printf fmt as) w"

definition perror :: "string \<Rightarrow> world \<Rightarrow> world" where
  "perror msg w = emit (Perror msg) w"

text \<open>\<^verbatim>\<open>MAP_FAILED\<close> is \<^verbatim>\<open>(void *) -1\<close>.\<close>

definition MAP_FAILED :: u64 where
  "MAP_FAILED = - 1"

subsection \<open>System calls\<close>

text \<open>
  \<open>sys_open\<close>: the descriptor is the environment's answer for the path, negative on failure;
  with \<^verbatim>\<open>O_CREAT\<close> a successful call leaves the path on disk.
\<close>

definition sys_open :: "env \<Rightarrow> string \<Rightarrow> bool \<Rightarrow> world \<Rightarrow> int \<times> world" where
  "sys_open e path creat w =
     (let fd = open_ret e path;
          w1 = emit (Open path) w
      in (fd, if 0 \<le> fd \<and> creat then w1\<lparr>fs := insert path (fs w1)\<rparr> else w1))"

definition sys_ftruncate :: "env \<Rightarrow> int \<Rightarrow> u64 \<Rightarrow> world \<Rightarrow> int \<times> world" where
  "sys_ftruncate e fd len w = (ftruncate_ret e, emit (Ftruncate fd len) w)"

text \<open>
  \<open>sys_mmap\<close>: the first argument names the file behind the descriptor; the environment
  answers with the address of the mapping or with \<open>MAP_FAILED\<close>.
\<close>

definition sys_mmap :: "env \<Rightarrow> string \<Rightarrow> u64 \<Rightarrow> int \<Rightarrow> u64 \<Rightarrow> world \<Rightarrow> u64 \<times> world" where
  "sys_mmap e path len fd off w = (mmap_ret e path, emit (Mmap len fd off) w)"

definition sys_munmap :: "env \<Rightarrow> u64 \<Rightarrow> u64 \<Rightarrow> world \<Rightarrow> int \<times> world" where
  "sys_munmap e addr len w = (munmap_ret e, emit (Munmap addr len) w)"

definition sys_close :: "env \<Rightarrow> int \<Rightarrow> world \<Rightarrow> int \<times> world" where
  "sys_close e fd w = (close_ret e, emit (Close fd) w)"

text \<open>\<open>sys_access\<close> is \<^verbatim>\<open>access(path, F_OK)\<close>: 0 when the path exists, -1 otherwise.\<close>

definition sys_access :: "string \<Rightarrow> world \<Rightarrow> int \<times> world" where
  "sys_access path w = (if path \<in> fs w then 0 else - 1, emit (Access path) w)"

text \<open>
  \<open>sys_unlink\<close> removes the path when it exists and the environment lets the call succeed;
  otherwise it returns -1 and the disk is unchanged.
\<close>

definition sys_unlink :: "env \<Rightarrow> string \<Rightarrow> world \<Rightarrow> int \<times> world" where
  "sys_unlink e path w =
     (let w1 = emit (Unlink path) w
      in if path \<in> fs w \<and> unlink_ok e then (0, w1\<lparr>fs := fs w1 - {path}\<rparr>) else (- 1, w1))"

subsection \<open>The mapped window and the fences\<close>

definition intrude :: "env \<Rightarrow> world \<Rightarrow> world" where
  "intrude e w = w\<lparr>mem := other_writer e (clock w) (mem w), clock := clock w + 1\<rparr>"

definition store :: "env \<Rightarrow> nat \<Rightarrow> u64 \<Rightarrow> world \<Rightarrow> world" where
  "store e i v w = (let w1 = intrude e w in emit (Store i v) (w1\<lparr>mem := (mem w1)(i := v)\<rparr>))"

definition load :: "env \<Rightarrow> nat \<Rightarrow> world \<Rightarrow> u64 \<times> world" where
  "load e i w = (let w1 = intrude e w; v = mem w1 i in (v, emit (Load i v) w1))"

text \<open>\<open>memset0 e n w\<close> is \<^verbatim>\<open>memset(ptr, 0, n)\<close> for a byte count \<open>n\<close> that is a multiple of 8.\<close>

definition memset0 :: "env \<Rightarrow> nat \<Rightarrow> world \<Rightarrow> world" where
  "memset0 e n w =
     (let w1 = intrude e w
      in emit (Memset 0 n) (w1\<lparr>mem := (\<lambda>i. if i < n div 8 then 0 else mem w1 i)\<rparr>))"

definition write_mem_fence :: "world \<Rightarrow> world" where
  "write_mem_fence w = emit Fence w"

definition read_mem_fence :: "world \<Rightarrow> world" where
  "read_mem_fence w = emit Fence w"

section \<open>The test pattern\<close>

text \<open>
  Both programs write, and compare against, the expression
  \<^verbatim>\<open>0xDEADBEEF00000000ULL | i\<close> for a loop index \<open>i\<close> (a \<^verbatim>\<open>size_t\<close> in \<^verbatim>\<open>shm_rw.c\<close>, a
  non-negative \<^verbatim>\<open>int\<close> in \<^verbatim>\<open>shm_rw_fixed_addr.c\<close>), converted to 64 bits.
\<close>

definition test_pattern :: "nat \<Rightarrow> u64" where
  "test_pattern i = 0xDEADBEEF00000000 OR of_nat i"

section \<open>The Region Mapper (\<^verbatim>\<open>shm_rw.c\<close>)\<close>

definition SHARE_SIZE :: nat where
  "SHARE_SIZE = 1024"

definition SHARE_FILE :: string where
  "SHARE_FILE = ''/tmp/simbricks_shm_test''"

text \<open>The first loop of \<^verbatim>\<open>main\<close>: \<^verbatim>\<open>share[i] = 0xDEADBEEF00000000ULL | i\<close> for \<open>i\<close> below \<^verbatim>\<open>SHARE_SIZE / sizeof(uint64_t)\<close>.\<close>

function write_pattern :: "env \<Rightarrow> nat \<Rightarrow> world \<Rightarrow> world" where
  "write_pattern e i w =
     (if i < SHARE_SIZE div 8
      then write_pattern e (i + 1) (store e i (test_pattern i) w)
      else w)"
  by pat_completeness auto
termination
  by (relation "measure (\<lambda>(e, i, w). SHARE_SIZE div 8 - i)") auto

text \<open>
  The second loop: reads \<^verbatim>\<open>share[i]\<close>, and at the first value that differs from
  \<^verbatim>\<open>0xDEADBEEF00000000ULL | i\<close> prints the mismatch, clears \<^verbatim>\<open>ok\<close> and breaks. The
  result is \<^verbatim>\<open>ok\<close>.
\<close>

function verify_pattern :: "env \<Rightarrow> nat \<Rightarrow> world \<Rightarrow> int \<times> world" where
  "verify_pattern e i w =
     (if i < SHARE_SIZE div 8
      then (case load e i w of (v, w1) \<Rightarrow>
              if v \<noteq> (test_pattern i)
              then (0, printf ''[shm_rw_syscall] Mismatch at index %zu: expected 0x%016llX, got 0x%016llX\<newline>''
                         [ASize i, AHex (test_pattern i), AHex v] w1)
              else verify_pattern e (i + 1) w1)
      else (1, w))"
  by pat_completeness auto
termination
  by (relation "measure (\<lambda>(e, i, w). SHARE_SIZE div 8 - i)") auto

text \<open>The statements of \<^verbatim>\<open>main\<close> from the successful \<^verbatim>\<open>mmap\<close> to the \<^verbatim>\<open>return\<close>.\<close>

definition shm_rw_mapped :: "env \<Rightarrow> int \<Rightarrow> u64 \<Rightarrow> world \<Rightarrow> int \<times> world" where
  "shm_rw_mapped e fd share w0 =
     (let w = printf ''[shm_rw_syscall] Successfully mapped shared memory to virtual address %p\<newline>''
                [APtr share] w0;
          w = printf ''[shm_rw_syscall] Initializing memory with test pattern...\<newline>'' [] w;
          w = memset0 e SHARE_SIZE w;
          w = printf ''[shm_rw_syscall] Writing test pattern...\<newline>'' [] w;
          w = write_pattern e 0 w;
          w = write_mem_fence w;
          w = printf ''[shm_rw_syscall] Reading back and verifying...\<newline>'' [] w;
          w = read_mem_fence w
      in case verify_pattern e 0 w of (ok, w) \<Rightarrow>
         (let w = (if ok \<noteq> 0
                   then printf ''[shm_rw_syscall] PASS: all %d bytes match\<newline>'' [AInt (int SHARE_SIZE)] w
                   else printf ''[shm_rw_syscall] FAIL: data mismatch\<newline>'' [] w)
          in case sys_munmap e share (of_nat SHARE_SIZE) w of (_, w) \<Rightarrow>
             case sys_close e fd w of (_, w) \<Rightarrow>
             case sys_unlink e SHARE_FILE w of (_, w) \<Rightarrow>
             (if ok \<noteq> 0 then 0 else 1, w)))"

definition shm_rw_main :: "env \<Rightarrow> world \<Rightarrow> int \<times> world" where
  "shm_rw_main e w0 =
     (let w = printf ''[shm_rw_syscall] Creating shared memory region using file-based approach...\<newline>'' [] w0
      in case sys_open e SHARE_FILE True w of (fd, w) \<Rightarrow>
         if fd < 0
         then (let w = perror ''open failed'' w;
                   w = printf ''[shm_rw_syscall] ERROR: Failed to create shared memory file\<newline>'' [] w
               in (1, w))
         else case sys_ftruncate e fd (of_nat SHARE_SIZE) w of (r, w) \<Rightarrow>
           if r < 0
           then (let w = perror ''ftruncate failed'' w
                 in case sys_close e fd w of (_, w) \<Rightarrow>
                    case sys_unlink e SHARE_FILE w of (_, w) \<Rightarrow> (1, w))
           else case sys_mmap e SHARE_FILE (of_nat SHARE_SIZE) fd 0 w of (share, w) \<Rightarrow>
             if share = MAP_FAILED
             then (let w = perror ''mmap failed'' w
                   in case sys_close e fd w of (_, w) \<Rightarrow>
                      case sys_unlink e SHARE_FILE w of (_, w) \<Rightarrow> (1, w))
             else shm_rw_mapped e fd share w)"

section \<open>The Fixed-Address Mapper (\<^verbatim>\<open>shm_rw_fixed_addr.c\<close>)\<close>

definition FIXED_PHYS_ADDR :: u64 where
  "FIXED_PHYS_ADDR = 0x80000000"

definition MAP_SIZE :: u64 where
  "MAP_SIZE = 4096"

definition TEST_VALUE :: u64 where
  "TEST_VALUE = 0xDEADBEEFCAFEBABE"

text \<open>
  The first block of \<^verbatim>\<open>main\<close>, "Try /dev/mem first". The result is the pair
  \<^verbatim>\<open>(fd, mem_ptr)\<close> as the block leaves it; \<^verbatim>\<open>fd = -1\<close> asks for the fallback. When the
  device cannot be opened \<^verbatim>\<open>mem_ptr\<close> is still uninitialised: the model passes the
  indeterminate value \<open>junk\<close> on, and the program assigns \<^verbatim>\<open>mem_ptr\<close> before it reads it.
\<close>

definition try_dev_mem :: "env \<Rightarrow> u64 \<Rightarrow> world \<Rightarrow> (int \<times> u64) \<times> world" where
  "try_dev_mem e junk w0 =
     (case sys_open e ''/dev/mem'' False w0 of (fd, w) \<Rightarrow>
        if fd < 0
        then (let w = printf ''[shm_rw_fixed_addr] /dev/mem not available (%s), using file-based approach\<newline>''
                        [AStr (strerror_errno e)] w
              in ((- 1, junk), w))
        else (let w = printf ''[shm_rw_fixed_addr] /dev/mem opened successfully, attempting direct mapping\<newline>'' [] w;
                  aligned_addr = FIXED_PHYS_ADDR AND NOT (page_size e - 1);
                  offset = FIXED_PHYS_ADDR - aligned_addr
              in case sys_mmap e ''/dev/mem'' (MAP_SIZE + offset) fd aligned_addr w of (mem_ptr, w) \<Rightarrow>
                 if mem_ptr = MAP_FAILED
                 then (let w = printf ''[shm_rw_fixed_addr] /dev/mem mmap failed: %s, falling back to file-based approach\<newline>''
                                 [AStr (strerror_errno e)] w
                       in case sys_close e fd w of (_, w) \<Rightarrow> ((- 1, mem_ptr), w))
                 else (let w = printf ''[shm_rw_fixed_addr] Successfully mapped /dev/mem at aligned address 0x%lX\<newline>''
                                 [ALong aligned_addr] w
                       in ((fd, mem_ptr + offset), w))))"

text \<open>
  The loop "Test multiple locations": four iterations, each writes the pattern to
  \<^verbatim>\<open>mem_ptr[i]\<close>, reads it back, prints both and clears \<^verbatim>\<open>test_passed\<close> on a mismatch
  (without leaving the loop). The result is \<^verbatim>\<open>test_passed\<close>.
\<close>

function sweep :: "env \<Rightarrow> nat \<Rightarrow> int \<Rightarrow> world \<Rightarrow> int \<times> world" where
  "sweep e i test_passed w =
     (if i < 4
      then (let test_val = test_pattern i;
                w = store e i test_val w;
                w = write_mem_fence w;
                w = read_mem_fence w
            in case load e i w of (read_val, w) \<Rightarrow>
               (let w = printf ''[shm_rw_fixed_addr] Location [%d]: wrote 0x%016llX, read 0x%016llX\<newline>''
                          [AInt (int i), AHex test_val, AHex read_val] w
                in if read_val \<noteq> test_val
                   then sweep e (i + 1) 0
                          (printf ''[shm_rw_fixed_addr] FAIL at offset %d: mismatch detected\<newline>'' [AInt (int i)] w)
                   else sweep e (i + 1) test_passed w))
      else (test_passed, w))"
  by pat_completeness auto
termination
  by (relation "measure (\<lambda>(e, i, t, w). 4 - i)") auto

text \<open>The statements of \<^verbatim>\<open>main\<close> after the check of \<^verbatim>\<open>mem_ptr\<close> against \<^verbatim>\<open>MAP_FAILED\<close>.\<close>

definition fixed_addr_mapped :: "env \<Rightarrow> int \<Rightarrow> u64 \<Rightarrow> world \<Rightarrow> int \<times> world" where
  "fixed_addr_mapped e fd mem_ptr w0 =
     (let w = printf ''[shm_rw_fixed_addr] Successfully mapped address 0x%lX to virtual address %p\<newline>''
                [ALong FIXED_PHYS_ADDR, APtr mem_ptr] w0;
          w = printf ''[shm_rw_fixed_addr] Running simple test...\<newline>'' [] w;
          w = read_mem_fence w
      in case load e 0 w of (original_value, w) \<Rightarrow>
      (let w = printf ''[shm_rw_fixed_addr] Original value at 0x%lX: 0x%016llX\<newline>''
                 [ALong FIXED_PHYS_ADDR, AHex original_value] w;
           w = printf ''[shm_rw_fixed_addr] Writing test value 0x%016llX\<newline>'' [AHex TEST_VALUE] w;
           w = write_mem_fence w;
           w = store e 0 TEST_VALUE w;
           w = write_mem_fence w;
           w = read_mem_fence w
       in case load e 0 w of (read_value, w) \<Rightarrow>
       (let w = printf ''[shm_rw_fixed_addr] Read back value: 0x%016llX\<newline>'' [AHex read_value] w;
            w = (if read_value = TEST_VALUE
                 then printf ''[shm_rw_fixed_addr] PASS: Read back matches written value\<newline>'' [] w
                 else printf ''[shm_rw_fixed_addr] FAIL: Read back does not match written value\<newline>'' [] w);
            w = printf ''[shm_rw_fixed_addr] Testing multiple memory locations...\<newline>'' [] w
        in case sweep e 0 1 w of (test_passed, w) \<Rightarrow>
        (let w = (if test_passed \<noteq> 0
                  then printf ''[shm_rw_fixed_addr] PASS: All test locations match\<newline>'' [] w
                  else printf ''[shm_rw_fixed_addr] FAIL: Some locations had mismatches\<newline>'' [] w);
             w = printf ''[shm_rw_fixed_addr] Restoring original value\<newline>'' [] w;
             w = write_mem_fence w;
             w = store e 0 original_value w;
             w = write_mem_fence w
         in case sys_munmap e mem_ptr MAP_SIZE w of (_, w) \<Rightarrow>
            case sys_close e fd w of (_, w) \<Rightarrow>
            case sys_access ''/tmp/fixed_addr_mem'' w of (a, w) \<Rightarrow>
            (let w = (if a = 0 then snd (sys_unlink e ''/tmp/fixed_addr_mem'' w) else w);
                 w = printf ''[shm_rw_fixed_addr] Test completed successfully\<newline>'' [] w
             in (if test_passed \<noteq> 0 then 0 else 1, w))))))"

text \<open>
  The block \<^verbatim>\<open>if (mem_ptr == MAP_FAILED)\<close> and what follows it. \<^verbatim>\<open>access\<close> is called only
  when \<^verbatim>\<open>fd >= 0\<close>, as \<^verbatim>\<open>&&\<close> evaluates.
\<close>

definition fixed_addr_check :: "env \<Rightarrow> int \<Rightarrow> u64 \<Rightarrow> world \<Rightarrow> int \<times> world" where
  "fixed_addr_check e fd mem_ptr w0 =
     (if mem_ptr = MAP_FAILED
      then (let w = perror ''mmap failed'' w0
            in case sys_close e fd w of (_, w) \<Rightarrow>
               if 0 \<le> fd
               then (case sys_access ''/tmp/fixed_addr_mem'' w of (a, w) \<Rightarrow>
                       (1, if a = 0 then snd (sys_unlink e ''/tmp/fixed_addr_mem'' w) else w))
               else (1, w))
      else fixed_addr_mapped e fd mem_ptr w0)"

text \<open>
  The block "Fallback to file-based approach", entered with \<^verbatim>\<open>fd < 0\<close>, followed by the
  rest of \<^verbatim>\<open>main\<close>.
\<close>

definition fixed_addr_fallback :: "env \<Rightarrow> world \<Rightarrow> int \<times> world" where
  "fixed_addr_fallback e w0 =
     (let w = printf ''[shm_rw_fixed_addr] Using file-based approach\<newline>'' [] w0
      in case sys_open e ''/tmp/fixed_addr_mem'' True w of (fd, w) \<Rightarrow>
         if fd < 0
         then (1, perror ''Failed to create temporary file'' w)
         else case sys_ftruncate e fd (FIXED_PHYS_ADDR + MAP_SIZE) w of (r, w) \<Rightarrow>
           if r < 0
           then (let w = perror ''ftruncate failed'' w
                 in case sys_close e fd w of (_, w) \<Rightarrow>
                    case sys_unlink e ''/tmp/fixed_addr_mem'' w of (_, w) \<Rightarrow> (1, w))
           else case sys_mmap e ''/tmp/fixed_addr_mem'' MAP_SIZE fd FIXED_PHYS_ADDR w of (mem_ptr, w) \<Rightarrow>
                  fixed_addr_check e fd mem_ptr w)"

definition fixed_addr_main :: "env \<Rightarrow> u64 \<Rightarrow> world \<Rightarrow> int \<times> world" where
  "fixed_addr_main e junk w0 =
     (let w = printf ''[shm_rw_fixed_addr] Accessing fixed physical address 0x%lX\<newline>''
                [ALong FIXED_PHYS_ADDR] w0;
          w = printf ''[shm_rw_fixed_addr] Note: Address moved to 0x80000000 (2GB) to avoid overlap with main memory\<newline>'' [] w
      in case try_dev_mem e junk w of ((fd, mem_ptr), w) \<Rightarrow>
         if fd < 0 then fixed_addr_fallback e w else fixed_addr_check e fd mem_ptr w)"

section \<open>Reading a trace\<close>

text \<open>
  The window accesses, the lines printed (\<^verbatim>\<open>printf\<close> and \<^verbatim>\<open>perror\<close>) and the system calls
  of a trace, each in program order.
\<close>

definition stores :: "event list \<Rightarrow> (nat \<times> u64) list" where
  "stores tr = List.map_filter (\<lambda>ev. case ev of Store i v \<Rightarrow> Some (i, v) | _ \<Rightarrow> None) tr"

definition loads :: "event list \<Rightarrow> (nat \<times> u64) list" where
  "loads tr = List.map_filter (\<lambda>ev. case ev of Load i v \<Rightarrow> Some (i, v) | _ \<Rightarrow> None) tr"

definition printed :: "event list \<Rightarrow> event list" where
  "printed tr = filter (\<lambda>ev. case ev of Printf _ _ \<Rightarrow> True | Perror _ \<Rightarrow> True | _ \<Rightarrow> False) tr"

definition syscalls :: "event list \<Rightarrow> event list" where
  "syscalls tr =
     filter (\<lambda>ev. case ev of Printf _ _ \<Rightarrow> False | Perror _ \<Rightarrow> False | Memset _ _ \<Rightarrow> False
                   | Store _ _ \<Rightarrow> False | Load _ _ \<Rightarrow> False | Fence \<Rightarrow> False | _ \<Rightarrow> True) tr"

section \<open>Notions used to state and prove the properties\<close>

text \<open>
  \<open>shm_rw_prologue e\<close> is what a run of the Region Mapper whose setup succeeds has done when
  it enters the verification loop, and \<open>shm_rw_cleanup e\<close> are its three last system calls.
  \<open>shm_rw_at_verify e w\<close> is the world at that point and \<open>shm_rw_finish e ok w\<close> the rest of
  \<^verbatim>\<open>main\<close> after the loop; \<open>shm_rw_main_phases\<close> below shows that \<open>shm_rw_main\<close> is
  their composition with the loop.
\<close>

definition shm_rw_prologue :: "env \<Rightarrow> event list" where
  "shm_rw_prologue e =
     [Printf ''[shm_rw_syscall] Creating shared memory region using file-based approach...\<newline>'' [],
      Open SHARE_FILE,
      Ftruncate (open_ret e SHARE_FILE) 1024,
      Mmap 1024 (open_ret e SHARE_FILE) 0,
      Printf ''[shm_rw_syscall] Successfully mapped shared memory to virtual address %p\<newline>''
        [APtr (mmap_ret e SHARE_FILE)],
      Printf ''[shm_rw_syscall] Initializing memory with test pattern...\<newline>'' [],
      Memset 0 1024,
      Printf ''[shm_rw_syscall] Writing test pattern...\<newline>'' []] @
     map (\<lambda>j. Store j (test_pattern j)) [0..<128] @
     [Fence, Printf ''[shm_rw_syscall] Reading back and verifying...\<newline>'' [], Fence]"

definition shm_rw_cleanup :: "env \<Rightarrow> event list" where
  "shm_rw_cleanup e =
     [Munmap (mmap_ret e SHARE_FILE) 1024, Close (open_ret e SHARE_FILE), Unlink SHARE_FILE]"

definition shm_rw_at_verify :: "env \<Rightarrow> world \<Rightarrow> world" where
  "shm_rw_at_verify e w =
     read_mem_fence
      (printf ''[shm_rw_syscall] Reading back and verifying...\<newline>'' []
        (write_mem_fence
          (write_pattern e 0
            (printf ''[shm_rw_syscall] Writing test pattern...\<newline>'' []
              (memset0 e SHARE_SIZE
                (printf ''[shm_rw_syscall] Initializing memory with test pattern...\<newline>'' []
                  (printf ''[shm_rw_syscall] Successfully mapped shared memory to virtual address %p\<newline>''
                     [APtr (mmap_ret e SHARE_FILE)]
                    (snd (sys_mmap e SHARE_FILE (of_nat SHARE_SIZE) (open_ret e SHARE_FILE) 0
                      (snd (sys_ftruncate e (open_ret e SHARE_FILE) (of_nat SHARE_SIZE)
                        (snd (sys_open e SHARE_FILE True
                          (printf ''[shm_rw_syscall] Creating shared memory region using file-based approach...\<newline>''
                             [] w))))))))))))))"

definition shm_rw_finish :: "env \<Rightarrow> int \<Rightarrow> world \<Rightarrow> int \<times> world" where
  "shm_rw_finish e ok w =
     (if ok \<noteq> 0 then 0 else 1,
      snd (sys_unlink e SHARE_FILE
        (snd (sys_close e (open_ret e SHARE_FILE)
          (snd (sys_munmap e (mmap_ret e SHARE_FILE) (of_nat SHARE_SIZE)
            (if ok \<noteq> 0
             then printf ''[shm_rw_syscall] PASS: all %d bytes match\<newline>'' [AInt (int SHARE_SIZE)] w
             else printf ''[shm_rw_syscall] FAIL: data mismatch\<newline>'' [] w)))))))"

text \<open>
  Concrete inputs. \<open>fresh_world\<close>: an empty disk, a zeroed window, nothing done yet.
  \<open>calm_env\<close>: \<^verbatim>\<open>/dev/mem\<close> cannot be opened, every other call succeeds, pages are 4096
  bytes, and nobody else writes to the window. \<open>tamper_env\<close>: as \<open>calm_env\<close>, but between
  the Region Mapper's last store (access 128) and its first load (access 129) somebody
  zeroes word 5.
\<close>

definition fresh_world :: world where
  "fresh_world = \<lparr>fs = {}, mem = (\<lambda>i. 0), clock = 0, trace = []\<rparr>"

definition calm_env :: env where
  "calm_env = \<lparr>open_ret = (\<lambda>p. if p = ''/dev/mem'' then - 1 else 3), ftruncate_ret = 0,
     mmap_ret = (\<lambda>p. 0x7F0000000000), munmap_ret = 0, close_ret = 0, unlink_ok = True,
     page_size = 4096, strerror_errno = ''Permission denied'', other_writer = (\<lambda>k m. m)\<rparr>"

definition tamper_env :: env where
  "tamper_env = calm_env\<lparr>other_writer := (\<lambda>k m. if k = 129 then m(5 := 0) else m)\<rparr>"

text \<open>\<open>stuck_unlink_env\<close>: as \<open>calm_env\<close>, but \<^verbatim>\<open>unlink\<close> fails.\<close>

definition stuck_unlink_env :: env where
  "stuck_unlink_env = calm_env\<lparr>unlink_ok := False\<rparr>"

text \<open>
  The format strings of the Fixed-Address Mapper and its two path names, under names, so
  that the terms of the proofs stay small. The program itself is stated above on the
  strings; \<open>fixed_addr_main_eq\<close> and its companions below are the same equations with
  the names folded in.
\<close>

definition fa_hello :: string where
  "fa_hello = ''[shm_rw_fixed_addr] Accessing fixed physical address 0x%lX\<newline>''"

definition fa_note :: string where
  "fa_note = ''[shm_rw_fixed_addr] Note: Address moved to 0x80000000 (2GB) to avoid overlap with main memory\<newline>''"

definition fa_nodev :: string where
  "fa_nodev = ''[shm_rw_fixed_addr] /dev/mem not available (%s), using file-based approach\<newline>''"

definition fa_devopen :: string where
  "fa_devopen = ''[shm_rw_fixed_addr] /dev/mem opened successfully, attempting direct mapping\<newline>''"

definition fa_devmmapfail :: string where
  "fa_devmmapfail = ''[shm_rw_fixed_addr] /dev/mem mmap failed: %s, falling back to file-based approach\<newline>''"

definition fa_devmapped :: string where
  "fa_devmapped = ''[shm_rw_fixed_addr] Successfully mapped /dev/mem at aligned address 0x%lX\<newline>''"

definition fa_usefile :: string where
  "fa_usefile = ''[shm_rw_fixed_addr] Using file-based approach\<newline>''"

definition fa_mapped :: string where
  "fa_mapped = ''[shm_rw_fixed_addr] Successfully mapped address 0x%lX to virtual address %p\<newline>''"

definition fa_simple :: string where
  "fa_simple = ''[shm_rw_fixed_addr] Running simple test...\<newline>''"

definition fa_original :: string where
  "fa_original = ''[shm_rw_fixed_addr] Original value at 0x%lX: 0x%016llX\<newline>''"

definition fa_writing :: string where
  "fa_writing = ''[shm_rw_fixed_addr] Writing test value 0x%016llX\<newline>''"

definition fa_readback :: string where
  "fa_readback = ''[shm_rw_fixed_addr] Read back value: 0x%016llX\<newline>''"

definition fa_pass1 :: string where
  "fa_pass1 = ''[shm_rw_fixed_addr] PASS: Read back matches written value\<newline>''"

definition fa_fail1 :: string where
  "fa_fail1 = ''[shm_rw_fixed_addr] FAIL: Read back does not match written value\<newline>''"

definition fa_multi :: string where
  "fa_multi = ''[shm_rw_fixed_addr] Testing multiple memory locations...\<newline>''"

definition fa_location :: string where
  "fa_location = ''[shm_rw_fixed_addr] Location [%d]: wrote 0x%016llX, read 0x%016llX\<newline>''"

definition fa_failat :: string where
  "fa_failat = ''[shm_rw_fixed_addr] FAIL at offset %d: mismatch detected\<newline>''"

definition fa_passall :: string where
  "fa_passall = ''[shm_rw_fixed_addr] PASS: All test locations match\<newline>''"

definition fa_failsome :: string where
  "fa_failsome = ''[shm_rw_fixed_addr] FAIL: Some locations had mismatches\<newline>''"

definition fa_restoring :: string where
  "fa_restoring = ''[shm_rw_fixed_addr] Restoring original value\<newline>''"

definition fa_done :: string where
  "fa_done = ''[shm_rw_fixed_addr] Test completed successfully\<newline>''"

definition dev_mem :: string where
  "dev_mem = ''/dev/mem''"

definition sim_file :: string where
  "sim_file = ''/tmp/fixed_addr_mem''"

text \<open>
  \<open>sweep_iter e i\<close> is one pass through the body of the loop \<open>sweep\<close>, on the pair of
  \<^verbatim>\<open>test_passed\<close> and the world; \<open>sweep_seen e i w\<close> is the value that pass reads back and
  \<open>sweep_events i v\<close> what it adds to the trace when it reads \<open>v\<close>.
\<close>

definition sweep_iter :: "env \<Rightarrow> nat \<Rightarrow> int \<times> world \<Rightarrow> int \<times> world" where
  "sweep_iter e i tw =
     (case tw of (test_passed, w) \<Rightarrow>
        (let test_val = test_pattern i;
             w = store e i test_val w;
             w = write_mem_fence w;
             w = read_mem_fence w
         in case load e i w of (read_val, w) \<Rightarrow>
            (let w = printf fa_location [AInt (int i), AHex test_val, AHex read_val] w
             in if read_val \<noteq> test_val
                then (0, printf fa_failat [AInt (int i)] w)
                else (test_passed, w))))"

definition sweep_events :: "nat \<Rightarrow> u64 \<Rightarrow> event list" where
  "sweep_events i v =
     [Store i (test_pattern i), Fence, Fence, Load i v,
      Printf fa_location [AInt (int i), AHex (test_pattern i), AHex v]] @
     (if v \<noteq> test_pattern i then [Printf fa_failat [AInt (int i)]] else [])"

definition sweep_seen :: "env \<Rightarrow> nat \<Rightarrow> world \<Rightarrow> u64" where
  "sweep_seen e i w =
     other_writer e (clock w + 1) ((other_writer e (clock w) (mem w))(i := test_pattern i)) i"

text \<open>
  The phases of \<open>fixed_addr_mapped\<close>: \<open>fixed_addr_orig e w\<close> is the value its first load
  returns (\<^verbatim>\<open>original_value\<close>) and \<open>fixed_addr_readback e w\<close> the value of its second load
  (\<^verbatim>\<open>read_value\<close>); \<open>fixed_addr_at_sweep\<close> is the world when the loop starts and
  \<open>fixed_addr_finish\<close> the statements after the loop. \<open>fixed_addr_mapped_events\<close> lists
  the events of the whole phase, given the six values read and whether the simulation file
  is on disk at cleanup.
\<close>

definition fixed_addr_orig :: "env \<Rightarrow> world \<Rightarrow> u64" where
  "fixed_addr_orig e w = other_writer e (clock w) (mem w) 0"

definition fixed_addr_readback :: "env \<Rightarrow> world \<Rightarrow> u64" where
  "fixed_addr_readback e w =
     other_writer e (clock w + 2)
       ((other_writer e (clock w + 1) (other_writer e (clock w) (mem w)))(0 := TEST_VALUE)) 0"

definition fixed_addr_at_sweep :: "env \<Rightarrow> u64 \<Rightarrow> world \<Rightarrow> world" where
  "fixed_addr_at_sweep e mem_ptr w0 =
     (let w = printf fa_mapped [ALong FIXED_PHYS_ADDR, APtr mem_ptr] w0;
          w = printf fa_simple [] w;
          w = read_mem_fence w;
          original_value = fst (load e 0 w);
          w = snd (load e 0 w);
          w = printf fa_original [ALong FIXED_PHYS_ADDR, AHex original_value] w;
          w = printf fa_writing [AHex TEST_VALUE] w;
          w = write_mem_fence w;
          w = store e 0 TEST_VALUE w;
          w = write_mem_fence w;
          w = read_mem_fence w;
          read_value = fst (load e 0 w);
          w = snd (load e 0 w);
          w = printf fa_readback [AHex read_value] w;
          w = (if read_value = TEST_VALUE then printf fa_pass1 [] w else printf fa_fail1 [] w)
      in printf fa_multi [] w)"

definition fixed_addr_finish :: "env \<Rightarrow> int \<Rightarrow> u64 \<Rightarrow> u64 \<Rightarrow> int \<Rightarrow> world \<Rightarrow> int \<times> world" where
  "fixed_addr_finish e fd mem_ptr original_value test_passed w0 =
     (let w = (if test_passed \<noteq> 0 then printf fa_passall [] w0 else printf fa_failsome [] w0);
          w = printf fa_restoring [] w;
          w = write_mem_fence w;
          w = store e 0 original_value w;
          w = write_mem_fence w;
          w = snd (sys_munmap e mem_ptr MAP_SIZE w);
          w = snd (sys_close e fd w);
          a = fst (sys_access sim_file w);
          w = snd (sys_access sim_file w);
          w = (if a = 0 then snd (sys_unlink e sim_file w) else w);
          w = printf fa_done [] w
      in (if test_passed \<noteq> 0 then 0 else 1, w))"

definition fixed_addr_mapped_events ::
    "int \<Rightarrow> u64 \<Rightarrow> u64 \<Rightarrow> u64 \<Rightarrow> u64 \<Rightarrow> u64 \<Rightarrow> u64 \<Rightarrow> u64 \<Rightarrow> bool \<Rightarrow> event list" where
  "fixed_addr_mapped_events fd mem_ptr orig rv v0 v1 v2 v3 there =
     [Printf fa_mapped [ALong FIXED_PHYS_ADDR, APtr mem_ptr],
      Printf fa_simple [],
      Fence, Load 0 orig,
      Printf fa_original [ALong FIXED_PHYS_ADDR, AHex orig],
      Printf fa_writing [AHex TEST_VALUE],
      Fence, Store 0 TEST_VALUE, Fence, Fence, Load 0 rv,
      Printf fa_readback [AHex rv],
      if rv = TEST_VALUE then Printf fa_pass1 [] else Printf fa_fail1 [],
      Printf fa_multi []] @
     sweep_events 0 v0 @ sweep_events 1 v1 @ sweep_events 2 v2 @ sweep_events 3 v3 @
     [if v0 = test_pattern 0 \<and> v1 = test_pattern 1 \<and> v2 = test_pattern 2 \<and> v3 = test_pattern 3
      then Printf fa_passall [] else Printf fa_failsome [],
      Printf fa_restoring [],
      Fence, Store 0 orig, Fence,
      Munmap mem_ptr MAP_SIZE, Close fd, Access sim_file] @
     (if there then [Unlink sim_file] else []) @
     [Printf fa_done []]"

text \<open>
  The setup of the Fixed-Address Mapper. \<open>takes_fallback e\<close>: \<^verbatim>\<open>/dev/mem\<close> cannot be opened
  or cannot be mapped, so the program goes to the file-based approach. \<open>fixed_addr_fd\<close> and
  \<open>fixed_addr_ptr\<close> are \<^verbatim>\<open>fd\<close> and \<^verbatim>\<open>mem_ptr\<close> as the setup leaves them.
  \<open>reaches_mapped e\<close>: the setup succeeds, that is, in the fallback the file is opened and
  sized, and on either path \<^verbatim>\<open>mem_ptr\<close> is not \<^verbatim>\<open>MAP_FAILED\<close>.
  \<open>fixed_addr_setup_events e\<close> are the events up to the last system call of the setup, and
  \<open>fixed_addr_setup_world e w\<close> is the world there.
\<close>

definition takes_fallback :: "env \<Rightarrow> bool" where
  "takes_fallback e \<longleftrightarrow> open_ret e dev_mem < 0 \<or> mmap_ret e dev_mem = MAP_FAILED"

definition fixed_addr_fd :: "env \<Rightarrow> int" where
  "fixed_addr_fd e = (if takes_fallback e then open_ret e sim_file else open_ret e dev_mem)"

definition fixed_addr_ptr :: "env \<Rightarrow> u64" where
  "fixed_addr_ptr e =
     (if takes_fallback e then mmap_ret e sim_file
      else mmap_ret e dev_mem + (FIXED_PHYS_ADDR - (FIXED_PHYS_ADDR AND NOT (page_size e - 1))))"

definition reaches_mapped :: "env \<Rightarrow> bool" where
  "reaches_mapped e \<longleftrightarrow>
     (if takes_fallback e then 0 \<le> open_ret e sim_file \<and> 0 \<le> ftruncate_ret e else True)
     \<and> fixed_addr_ptr e \<noteq> MAP_FAILED"

definition fixed_addr_setup_events :: "env \<Rightarrow> event list" where
  "fixed_addr_setup_events e =
     [Printf fa_hello [ALong FIXED_PHYS_ADDR], Printf fa_note [], Open dev_mem] @
     (if open_ret e dev_mem < 0
      then [Printf fa_nodev [AStr (strerror_errno e)]]
      else [Printf fa_devopen [],
            Mmap (MAP_SIZE + (FIXED_PHYS_ADDR - (FIXED_PHYS_ADDR AND NOT (page_size e - 1))))
              (open_ret e dev_mem) (FIXED_PHYS_ADDR AND NOT (page_size e - 1))] @
           (if mmap_ret e dev_mem = MAP_FAILED
            then [Printf fa_devmmapfail [AStr (strerror_errno e)], Close (open_ret e dev_mem)]
            else [Printf fa_devmapped [ALong (FIXED_PHYS_ADDR AND NOT (page_size e - 1))]])) @
     (if takes_fallback e
      then [Printf fa_usefile [], Open sim_file] @
           (if 0 \<le> open_ret e sim_file
            then [Ftruncate (open_ret e sim_file) (FIXED_PHYS_ADDR + MAP_SIZE)] @
                 (if 0 \<le> ftruncate_ret e
                  then [Mmap MAP_SIZE (open_ret e sim_file) FIXED_PHYS_ADDR]
                  else [])
            else [])
      else [])"

definition fixed_addr_setup_world :: "env \<Rightarrow> world \<Rightarrow> world" where
  "fixed_addr_setup_world e w =
     w\<lparr>fs := (if takes_fallback e \<and> 0 \<le> open_ret e sim_file then insert sim_file (fs w) else fs w),
       trace := trace w @ fixed_addr_setup_events e\<rparr>"

text \<open>
  More concrete inputs. \<open>glitch_env\<close>: as \<open>calm_env\<close> (so the simulation file is used), but
  just before the Fixed-Address Mapper's third access, the read-back of the test value,
  somebody zeroes word 0. \<open>priv_env\<close>: as \<open>calm_env\<close>, but \<^verbatim>\<open>/dev/mem\<close> opens and maps.
  \<open>stale_world\<close>: a file \<^verbatim>\<open>/tmp/fixed_addr_mem\<close> is already on disk. \<open>used_world\<close>: the window
  holds \<open>0x1122334455667788\<close> in every word.
\<close>

definition glitch_env :: env where
  "glitch_env = calm_env\<lparr>other_writer := (\<lambda>k m. if k = 2 then m(0 := 0) else m)\<rparr>"

definition priv_env :: env where
  "priv_env = calm_env\<lparr>open_ret := (\<lambda>p. 3)\<rparr>"


definition used_world :: world where
  "used_world = fresh_world\<lparr>mem := (\<lambda>i. 0x1122334455667788)\<rparr>"

text \<open>
  \<open>no_mmap_env\<close>: as \<open>calm_env\<close>, but every \<^verbatim>\<open>mmap\<close> fails. \<open>no_dev_mmap_env\<close>: \<^verbatim>\<open>/dev/mem\<close>
  opens but cannot be mapped, and the simulation file can.
\<close>

definition no_mmap_env :: env where
  "no_mmap_env = calm_env\<lparr>mmap_ret := (\<lambda>p. MAP_FAILED)\<rparr>"

definition no_dev_mmap_env :: env where
  "no_dev_mmap_env =
     priv_env\<lparr>mmap_ret := (\<lambda>p. if p = ''/dev/mem'' then MAP_FAILED else 0x7F0000000000)\<rparr>"

section \<open>The test pattern is injective\<close>

lemma test_pattern_low: "i < 2 ^ 32 \<Longrightarrow> unat (take_bit 32 (test_pattern i)) = i"
  unfolding test_pattern_def
  apply (simp add: take_bit_eq_mask bit.conj_disj_distrib2)
  apply (simp flip: take_bit_eq_mask)
  apply (simp add: unsigned_take_bit_eq unsigned_of_nat take_bit_nat_eq_self)
  done

lemma test_pattern_inj:
  "i < 2 ^ 32 \<Longrightarrow> j < 2 ^ 32 \<Longrightarrow> test_pattern i = test_pattern j \<Longrightarrow> i = j"
  by (metis test_pattern_low)

section \<open>The write and verify sweeps of the Region Mapper\<close>

declare write_pattern.simps [simp del] verify_pattern.simps [simp del] sweep.simps [simp del]

lemma map_filter_append: "List.map_filter f (xs @ ys) = List.map_filter f xs @ List.map_filter f ys"
  by (simp add: List.map_filter_def)

lemma nwords: "SHARE_SIZE div 8 = 128"
  by (simp add: SHARE_SIZE_def)

lemma write_pattern_trace:
  "i \<le> 128 \<Longrightarrow> trace (write_pattern e i w) = trace w @ map (\<lambda>j. Store j (test_pattern j)) [i..<128]"
proof (induction e i w rule: write_pattern.induct)
  case (1 e i w)
  show ?case
  proof (cases "i < 128")
    case True
    then have "trace (write_pattern e i w) = trace (write_pattern e (i + 1) (store e i (test_pattern i) w))"
      by (subst write_pattern.simps) (simp add: nwords)
    also have "\<dots> = trace (store e i (test_pattern i) w) @ map (\<lambda>j. Store j (test_pattern j)) [i + 1..<128]"
      using True by (intro "1.IH") (simp_all add: nwords)
    also have "\<dots> = trace w @ map (\<lambda>j. Store j (test_pattern j)) [i..<128]"
      using True by (simp add: store_def intrude_def emit_def upt_conv_Cons)
    finally show ?thesis .
  next
    case False
    with "1.prems" have "i = 128" by simp
    then show ?thesis by (subst write_pattern.simps) (simp add: nwords)
  qed
qed

lemma write_pattern_fs: "fs (write_pattern e i w) = fs w"
proof (induction e i w rule: write_pattern.induct)
  case (1 e i w)
  show ?case
  proof (cases "i < 128")
    case True
    then show ?thesis
      using "1.IH" by (subst write_pattern.simps) (simp add: nwords store_def intrude_def emit_def)
  next
    case False
    then show ?thesis by (subst write_pattern.simps) (simp add: nwords)
  qed
qed

lemma write_pattern_clock: "i \<le> 128 \<Longrightarrow> clock (write_pattern e i w) = clock w + (128 - i)"
proof (induction e i w rule: write_pattern.induct)
  case (1 e i w)
  show ?case
  proof (cases "i < 128")
    case True
    then show ?thesis
      using "1.IH" by (subst write_pattern.simps) (simp add: nwords store_def intrude_def emit_def)
  next
    case False
    then show ?thesis using "1.prems" by (subst write_pattern.simps) (simp add: nwords)
  qed
qed

lemma verify_pattern_cases:
  assumes "i \<le> 128" and "verify_pattern e i w = (ok, w')"
  shows "fs w' = fs w \<and>
         ((ok = 1 \<and> trace w' = trace w @ map (\<lambda>j. Load j (test_pattern j)) [i..<128]) \<or>
          (ok = 0 \<and> (\<exists>k v. i \<le> k \<and> k < 128 \<and> v \<noteq> test_pattern k \<and>
              trace w' = trace w @ map (\<lambda>j. Load j (test_pattern j)) [i..<k] @
                [Load k v,
                 Printf ''[shm_rw_syscall] Mismatch at index %zu: expected 0x%016llX, got 0x%016llX\<newline>''
                   [ASize k, AHex (test_pattern k), AHex v]])))"
  using assms
proof (induction e i w rule: verify_pattern.induct)
  case (1 e i w)
  show ?case
  proof (cases "i < 128")
    case False
    with "1.prems" have "i = 128" by simp
    with "1.prems"(2) show ?thesis by (subst (asm) verify_pattern.simps) (simp add: nwords)
  next
    case True
    obtain v w1 where ld: "load e i w = (v, w1)" by (cases "load e i w")
    have w1: "fs w1 = fs w" "trace w1 = trace w @ [Load i v]"
      using ld by (auto simp: load_def intrude_def emit_def Let_def)
    show ?thesis
    proof (cases "v = test_pattern i")
      case False
      with True ld "1.prems"(2)
      have "ok = 0" and "w' = printf ''[shm_rw_syscall] Mismatch at index %zu: expected 0x%016llX, got 0x%016llX\<newline>''
                   [ASize i, AHex (test_pattern i), AHex v] w1"
        by (subst (asm) verify_pattern.simps, simp add: nwords)+
      with w1 False True show ?thesis
        by (auto simp: printf_def emit_def intro!: exI[of _ i] exI[of _ v])
    next
      case eq: True
      with True ld "1.prems"(2) have rec: "verify_pattern e (i + 1) w1 = (ok, w')"
        by (subst (asm) verify_pattern.simps) (simp add: nwords)
      have ih: "fs w' = fs w1 \<and>
         ((ok = 1 \<and> trace w' = trace w1 @ map (\<lambda>j. Load j (test_pattern j)) [i + 1..<128]) \<or>
          (ok = 0 \<and> (\<exists>k v. i + 1 \<le> k \<and> k < 128 \<and> v \<noteq> test_pattern k \<and>
              trace w' = trace w1 @ map (\<lambda>j. Load j (test_pattern j)) [i + 1..<k] @
                [Load k v,
                 Printf ''[shm_rw_syscall] Mismatch at index %zu: expected 0x%016llX, got 0x%016llX\<newline>''
                   [ASize k, AHex (test_pattern k), AHex v]])))"
        using True eq ld rec by (intro "1.IH"[of v w1]) (simp_all add: nwords)
      then show ?thesis
      proof (elim conjE disjE exE)
        assume "fs w' = fs w1" "ok = 1" "trace w' = trace w1 @ map (\<lambda>j. Load j (test_pattern j)) [i + 1..<128]"
        then show ?thesis using w1 eq True by (simp add: upt_conv_Cons)
      next
        fix k v'
        assume a: "fs w' = fs w1" "ok = 0" "i + 1 \<le> k" "k < 128" "v' \<noteq> test_pattern k"
          "trace w' = trace w1 @ map (\<lambda>j. Load j (test_pattern j)) [i + 1..<k] @
                [Load k v',
                 Printf ''[shm_rw_syscall] Mismatch at index %zu: expected 0x%016llX, got 0x%016llX\<newline>''
                   [ASize k, AHex (test_pattern k), AHex v']]"
        have "[i..<k] = i # [i + 1..<k]" using a(3) by (simp add: upt_conv_Cons)
        with a w1 eq show ?thesis
          by (intro conjI disjI2) (auto intro!: exI[of _ k] exI[of _ v'])
      qed
    qed
  qed
qed

lemmas prim_defs = emit_def printf_def perror_def sys_open_def sys_ftruncate_def sys_mmap_def
  sys_munmap_def sys_close_def sys_access_def sys_unlink_def intrude_def store_def load_def
  memset0_def write_mem_fence_def read_mem_fence_def

lemma write_pattern_mem:
  assumes "\<forall>k. clock w \<le> k \<and> k < clock w + (128 - i) \<longrightarrow> other_writer e k = (\<lambda>m. m)" and "i \<le> 128"
  shows "mem (write_pattern e i w) = (\<lambda>j. if i \<le> j \<and> j < 128 then test_pattern j else mem w j)"
  using assms
proof (induction e i w rule: write_pattern.induct)
  case (1 e i w)
  show ?case
  proof (cases "i < 128")
    case False
    then show ?thesis using "1.prems" by (subst write_pattern.simps) (auto simp: nwords fun_eq_iff)
  next
    case True
    let ?w1 = "store e i (test_pattern i) w"
    have ow: "other_writer e (clock w) = (\<lambda>m. m)"
      using "1.prems"(1) True by simp
    have w1: "mem ?w1 = (mem w)(i := test_pattern i)" "clock ?w1 = clock w + 1"
      by (simp_all add: store_def intrude_def emit_def ow)
    have "mem (write_pattern e (i + 1) ?w1) =
            (\<lambda>j. if i + 1 \<le> j \<and> j < 128 then test_pattern j else mem ?w1 j)"
    proof (rule "1.IH")
      show "i < SHARE_SIZE div 8" using True by (simp add: nwords)
      show "i + 1 \<le> 128" using True by simp
      show "\<forall>k. clock ?w1 \<le> k \<and> k < clock ?w1 + (128 - (i + 1)) \<longrightarrow> other_writer e k = (\<lambda>m. m)"
      proof (intro allI impI)
        fix k assume "clock ?w1 \<le> k \<and> k < clock ?w1 + (128 - (i + 1))"
        then have "clock w \<le> k \<and> k < clock w + (128 - i)" using True unfolding w1 by arith
        then show "other_writer e k = (\<lambda>m. m)" using "1.prems"(1) by blast
      qed
    qed
    moreover have "write_pattern e i w = write_pattern e (i + 1) ?w1"
      using True by (subst write_pattern.simps) (simp add: nwords)
    ultimately show ?thesis
      using True by (auto simp: w1)
  qed
qed

lemma verify_pattern_view:
  assumes "\<forall>k. clock w < k \<longrightarrow> other_writer e k = (\<lambda>m. m)" and "i \<le> 128"
    and "verify_pattern e i w = (ok, w')"
  shows "(ok = 1 \<and> (\<forall>j. i \<le> j \<and> j < 128 \<longrightarrow> other_writer e (clock w) (mem w) j = test_pattern j)) \<or>
         (ok = 0 \<and> (\<exists>k. i \<le> k \<and> k < 128 \<and>
              other_writer e (clock w) (mem w) k \<noteq> test_pattern k \<and>
              (\<forall>j. i \<le> j \<and> j < k \<longrightarrow> other_writer e (clock w) (mem w) j = test_pattern j) \<and>
              trace w' = trace w @ map (\<lambda>j. Load j (test_pattern j)) [i..<k] @
                [Load k (other_writer e (clock w) (mem w) k),
                 Printf ''[shm_rw_syscall] Mismatch at index %zu: expected 0x%016llX, got 0x%016llX\<newline>''
                   [ASize k, AHex (test_pattern k), AHex (other_writer e (clock w) (mem w) k)]]))"
  using assms
proof (induction e i w rule: verify_pattern.induct)
  case (1 e i w)
  let ?m = "other_writer e (clock w) (mem w)"
  show ?case
  proof (cases "i < 128")
    case False
    with "1.prems" have "i = 128" by simp
    with "1.prems"(3) show ?thesis by (subst (asm) verify_pattern.simps) (auto simp: nwords)
  next
    case True
    obtain v w1 where ld: "load e i w = (v, w1)" by (cases "load e i w")
    have w1: "trace w1 = trace w @ [Load i v]" "v = ?m i" "mem w1 = ?m" "clock w1 = clock w + 1"
      using ld by (auto simp: load_def intrude_def emit_def Let_def)
    show ?thesis
    proof (cases "v = test_pattern i")
      case False
      with True ld "1.prems"(3)
      have "ok = 0" and "w' = printf ''[shm_rw_syscall] Mismatch at index %zu: expected 0x%016llX, got 0x%016llX\<newline>''
                   [ASize i, AHex (test_pattern i), AHex v] w1"
        by (subst (asm) verify_pattern.simps, simp add: nwords)+
      with w1 False True show ?thesis
        by (auto simp: printf_def emit_def intro!: exI[of _ i])
    next
      case eq: True
      with True ld "1.prems"(3) have rec: "verify_pattern e (i + 1) w1 = (ok, w')"
        by (subst (asm) verify_pattern.simps) (simp add: nwords)
      have q1: "\<forall>k. clock w1 < k \<longrightarrow> other_writer e k = (\<lambda>m. m)"
        using "1.prems"(1) w1(4) by simp
      have m1: "other_writer e (clock w1) (mem w1) = ?m"
        using "1.prems"(1) w1(3,4) by simp
      have ih: "(ok = 1 \<and> (\<forall>j. i + 1 \<le> j \<and> j < 128 \<longrightarrow> ?m j = test_pattern j)) \<or>
         (ok = 0 \<and> (\<exists>k. i + 1 \<le> k \<and> k < 128 \<and> ?m k \<noteq> test_pattern k \<and>
              (\<forall>j. i + 1 \<le> j \<and> j < k \<longrightarrow> ?m j = test_pattern j) \<and>
              trace w' = trace w1 @ map (\<lambda>j. Load j (test_pattern j)) [i + 1..<k] @
                [Load k (?m k),
                 Printf ''[shm_rw_syscall] Mismatch at index %zu: expected 0x%016llX, got 0x%016llX\<newline>''
                   [ASize k, AHex (test_pattern k), AHex (?m k)]]))"
      proof -
        have "(ok = 1 \<and> (\<forall>j. i + 1 \<le> j \<and> j < 128 \<longrightarrow> other_writer e (clock w1) (mem w1) j = test_pattern j)) \<or>
         (ok = 0 \<and> (\<exists>k. i + 1 \<le> k \<and> k < 128 \<and> other_writer e (clock w1) (mem w1) k \<noteq> test_pattern k \<and>
              (\<forall>j. i + 1 \<le> j \<and> j < k \<longrightarrow> other_writer e (clock w1) (mem w1) j = test_pattern j) \<and>
              trace w' = trace w1 @ map (\<lambda>j. Load j (test_pattern j)) [i + 1..<k] @
                [Load k (other_writer e (clock w1) (mem w1) k),
                 Printf ''[shm_rw_syscall] Mismatch at index %zu: expected 0x%016llX, got 0x%016llX\<newline>''
                   [ASize k, AHex (test_pattern k), AHex (other_writer e (clock w1) (mem w1) k)]]))"
          by (rule "1.IH"[of v w1]) (use True ld eq q1 rec in \<open>simp_all add: nwords\<close>)
        then show ?thesis by (simp only: m1)
      qed
      have step: "\<And>n j. (\<forall>j. i + 1 \<le> j \<and> j < n \<longrightarrow> ?m j = test_pattern j) \<Longrightarrow> i \<le> j \<Longrightarrow> j < n \<Longrightarrow> ?m j = test_pattern j"
      proof -
        fix n j assume a: "\<forall>j. i + 1 \<le> j \<and> j < n \<longrightarrow> ?m j = test_pattern j" "i \<le> j" "j < n"
        show "?m j = test_pattern j"
        proof (cases "j = i")
          case True then show ?thesis using eq w1(2) by simp
        next
          case False then show ?thesis using a by simp
        qed
      qed
      from ih show ?thesis
      proof (elim conjE disjE exE)
        assume "ok = 1" "\<forall>j. i + 1 \<le> j \<and> j < 128 \<longrightarrow> ?m j = test_pattern j"
        then show ?thesis using step[of 128] by blast
      next
        fix k
        assume a: "ok = 0" "i + 1 \<le> k" "k < 128" "?m k \<noteq> test_pattern k"
          "\<forall>j. i + 1 \<le> j \<and> j < k \<longrightarrow> ?m j = test_pattern j"
          "trace w' = trace w1 @ map (\<lambda>j. Load j (test_pattern j)) [i + 1..<k] @
                [Load k (?m k),
                 Printf ''[shm_rw_syscall] Mismatch at index %zu: expected 0x%016llX, got 0x%016llX\<newline>''
                   [ASize k, AHex (test_pattern k), AHex (?m k)]]"
        have up: "[i..<k] = i # [i + 1..<k]" using a(2) by (simp add: upt_conv_Cons)
        have tr: "trace w' = trace w @ map (\<lambda>j. Load j (test_pattern j)) [i..<k] @
                [Load k (?m k),
                 Printf ''[shm_rw_syscall] Mismatch at index %zu: expected 0x%016llX, got 0x%016llX\<newline>''
                   [ASize k, AHex (test_pattern k), AHex (?m k)]]"
          using a(6) w1(1) eq by (simp add: up)
        have "i \<le> k" using a(2) by simp
        with a(1,3,4) tr step[OF a(5)] show ?thesis
          by (intro disjI2 conjI exI[of _ k]) auto
      qed
    qed
  qed
qed

section \<open>A run of the Region Mapper\<close>

lemma shm_rw_main_phases:
  assumes "0 \<le> open_ret e SHARE_FILE" and "0 \<le> ftruncate_ret e" and "mmap_ret e SHARE_FILE \<noteq> MAP_FAILED"
  shows "shm_rw_main e w =
           shm_rw_finish e (fst (verify_pattern e 0 (shm_rw_at_verify e w)))
             (snd (verify_pattern e 0 (shm_rw_at_verify e w)))"
  using assms
  by (simp add: shm_rw_main_def shm_rw_mapped_def shm_rw_at_verify_def shm_rw_finish_def
      sys_open_def sys_ftruncate_def sys_mmap_def sys_munmap_def sys_close_def sys_unlink_def
      Let_def split_beta)

lemma shm_rw_at_verify_trace:
  "trace (shm_rw_at_verify e w) = trace w @ shm_rw_prologue e"
  by (simp add: shm_rw_at_verify_def prim_defs write_pattern_trace SHARE_SIZE_def shm_rw_prologue_def Let_def)

lemma shm_rw_at_verify_fs:
  "0 \<le> open_ret e SHARE_FILE \<Longrightarrow> fs (shm_rw_at_verify e w) = insert SHARE_FILE (fs w)"
  by (simp add: shm_rw_at_verify_def prim_defs write_pattern_fs Let_def)

lemma shm_rw_at_verify_clock:
  "clock (shm_rw_at_verify e w) = clock w + 129"
  by (simp add: shm_rw_at_verify_def prim_defs write_pattern_clock Let_def)

lemma shm_rw_at_verify_mem:
  assumes q: "\<forall>k. clock w \<le> k \<and> k < clock w + 129 \<longrightarrow> other_writer e k = (\<lambda>m. m)"
  shows "mem (shm_rw_at_verify e w) = (\<lambda>j. if j < 128 then test_pattern j else mem w j)"
proof -
  define wm where "wm = printf ''[shm_rw_syscall] Writing test pattern...\<newline>'' []
              (memset0 e SHARE_SIZE
                (printf ''[shm_rw_syscall] Initializing memory with test pattern...\<newline>'' []
                  (printf ''[shm_rw_syscall] Successfully mapped shared memory to virtual address %p\<newline>''
                     [APtr (mmap_ret e SHARE_FILE)]
                    (snd (sys_mmap e SHARE_FILE (of_nat SHARE_SIZE) (open_ret e SHARE_FILE) 0
                      (snd (sys_ftruncate e (open_ret e SHARE_FILE) (of_nat SHARE_SIZE)
                        (snd (sys_open e SHARE_FILE True
                          (printf ''[shm_rw_syscall] Creating shared memory region using file-based approach...\<newline>''
                             [] w))))))))))"
  have ow: "other_writer e (clock w) = (\<lambda>m. m)" using q by simp
  have wm: "clock wm = clock w + 1" "mem wm = (\<lambda>i. if i < 128 then 0 else mem w i)"
    by (simp_all add: wm_def prim_defs SHARE_SIZE_def Let_def fun_eq_iff ow)
  have "mem (write_pattern e 0 wm) = (\<lambda>j. if 0 \<le> j \<and> j < 128 then test_pattern j else mem wm j)"
    using q by (intro write_pattern_mem) (simp_all add: wm)
  then show ?thesis
    unfolding shm_rw_at_verify_def wm_def[symmetric]
    by (simp add: prim_defs wm fun_eq_iff)
qed

lemma shm_rw_finish_simps:
  "fst (shm_rw_finish e ok w) = (if ok \<noteq> 0 then 0 else 1)"
  "trace (snd (shm_rw_finish e ok w)) = trace w @
       [if ok \<noteq> 0 then Printf ''[shm_rw_syscall] PASS: all %d bytes match\<newline>'' [AInt 1024]
        else Printf ''[shm_rw_syscall] FAIL: data mismatch\<newline>'' []] @ shm_rw_cleanup e"
  "fs (snd (shm_rw_finish e ok w)) = (if unlink_ok e then fs w - {SHARE_FILE} else fs w)"
  "mem (snd (shm_rw_finish e ok w)) = mem w"
  by (auto simp: shm_rw_finish_def prim_defs SHARE_SIZE_def Let_def shm_rw_cleanup_def)

section \<open>Projections of a trace\<close>

lemma stores_simps:
  "stores [] = []"
  "stores (ev # tr) = (case ev of Store i v \<Rightarrow> (i, v) # stores tr | _ \<Rightarrow> stores tr)"
  "stores (xs @ ys) = stores xs @ stores ys"
  by (simp_all add: stores_def List.map_filter_def split: event.splits)

lemma loads_simps:
  "loads [] = []"
  "loads (ev # tr) = (case ev of Load i v \<Rightarrow> (i, v) # loads tr | _ \<Rightarrow> loads tr)"
  "loads (xs @ ys) = loads xs @ loads ys"
  by (simp_all add: loads_def List.map_filter_def split: event.splits)

lemma stores_map:
  "stores (map (\<lambda>j. Store j (f j)) xs) = map (\<lambda>j. (j, f j)) xs"
  "stores (map (\<lambda>j. Load j (f j)) xs) = []"
  by (induction xs) (simp_all add: stores_simps)

lemma loads_map:
  "loads (map (\<lambda>j. Load j (f j)) xs) = map (\<lambda>j. (j, f j)) xs"
  "loads (map (\<lambda>j. Store j (f j)) xs) = []"
  by (induction xs) (simp_all add: loads_simps)

lemma printed_map:
  "printed (map (\<lambda>j. Load j (f j)) xs) = []"
  "printed (map (\<lambda>j. Store j (f j)) xs) = []"
  by (induction xs) (simp_all add: printed_def)

lemma syscalls_map:
  "syscalls (map (\<lambda>j. Load j (f j)) xs) = []"
  "syscalls (map (\<lambda>j. Store j (f j)) xs) = []"
  by (induction xs) (simp_all add: syscalls_def)

lemma printed_simps:
  "printed [] = []"
  "printed (ev # tr) = (case ev of Printf _ _ \<Rightarrow> ev # printed tr | Perror _ \<Rightarrow> ev # printed tr | _ \<Rightarrow> printed tr)"
  "printed (xs @ ys) = printed xs @ printed ys"
  by (simp_all add: printed_def split: event.splits)

lemma syscalls_simps:
  "syscalls [] = []"
  "syscalls (ev # tr) = (case ev of Printf _ _ \<Rightarrow> syscalls tr | Perror _ \<Rightarrow> syscalls tr
      | Memset _ _ \<Rightarrow> syscalls tr | Store _ _ \<Rightarrow> syscalls tr | Load _ _ \<Rightarrow> syscalls tr
      | Fence \<Rightarrow> syscalls tr | _ \<Rightarrow> ev # syscalls tr)"
  "syscalls (xs @ ys) = syscalls xs @ syscalls ys"
  by (simp_all add: syscalls_def split: event.splits)

lemmas proj_simps = stores_simps loads_simps printed_simps syscalls_simps
  stores_map loads_map printed_map syscalls_map

lemma shm_rw_main_run:
  assumes "0 \<le> open_ret e SHARE_FILE" and "0 \<le> ftruncate_ret e" and "mmap_ret e SHARE_FILE \<noteq> MAP_FAILED"
  obtains (pass) "fst (shm_rw_main e w) = 0"
      "trace (snd (shm_rw_main e w)) = trace w @ shm_rw_prologue e @
         map (\<lambda>j. Load j (test_pattern j)) [0..<128] @
         [Printf ''[shm_rw_syscall] PASS: all %d bytes match\<newline>'' [AInt 1024]] @ shm_rw_cleanup e"
  | (fail) k v where "k < 128" "v \<noteq> test_pattern k" "fst (shm_rw_main e w) = 1"
      "trace (snd (shm_rw_main e w)) = trace w @ shm_rw_prologue e @
         map (\<lambda>j. Load j (test_pattern j)) [0..<k] @
         [Load k v,
          Printf ''[shm_rw_syscall] Mismatch at index %zu: expected 0x%016llX, got 0x%016llX\<newline>''
            [ASize k, AHex (test_pattern k), AHex v],
          Printf ''[shm_rw_syscall] FAIL: data mismatch\<newline>'' []] @ shm_rw_cleanup e"
proof -
  obtain ok w' where v: "verify_pattern e 0 (shm_rw_at_verify e w) = (ok, w')"
    by (cases "verify_pattern e 0 (shm_rw_at_verify e w)")
  have m: "shm_rw_main e w = shm_rw_finish e ok w'"
    by (simp add: shm_rw_main_phases[OF assms] v)
  from verify_pattern_cases[OF _ v]
  consider "ok = 1" "trace w' = trace (shm_rw_at_verify e w) @ map (\<lambda>j. Load j (test_pattern j)) [0..<128]"
    | k v where "ok = 0" "k < 128" "v \<noteq> test_pattern k"
       "trace w' = trace (shm_rw_at_verify e w) @ map (\<lambda>j. Load j (test_pattern j)) [0..<k] @
                [Load k v,
                 Printf ''[shm_rw_syscall] Mismatch at index %zu: expected 0x%016llX, got 0x%016llX\<newline>''
                   [ASize k, AHex (test_pattern k), AHex v]]"
    by auto
  then show thesis
  proof cases
    case 1
    show thesis by (rule pass) (simp_all add: m shm_rw_finish_simps 1 shm_rw_at_verify_trace)
  next
    case (2 k v)
    show thesis by (rule fail[of k v]) (simp_all add: m shm_rw_finish_simps 2 shm_rw_at_verify_trace)
  qed
qed

lemma shm_rw_main_fs:
  assumes "0 \<le> open_ret e SHARE_FILE"
  shows "fs (snd (shm_rw_main e w)) = (if unlink_ok e then fs w - {SHARE_FILE} else insert SHARE_FILE (fs w))"
proof (cases "0 \<le> ftruncate_ret e \<and> mmap_ret e SHARE_FILE \<noteq> MAP_FAILED")
  case False
  then show ?thesis
    using assms by (auto simp: shm_rw_main_def prim_defs Let_def)
next
  case True
  then have ok: "0 \<le> ftruncate_ret e" "mmap_ret e SHARE_FILE \<noteq> MAP_FAILED" by simp_all
  obtain ok w' where v: "verify_pattern e 0 (shm_rw_at_verify e w) = (ok, w')"
    by (cases "verify_pattern e 0 (shm_rw_at_verify e w)")
  have m: "shm_rw_main e w = shm_rw_finish e ok w'"
    by (simp add: shm_rw_main_phases[OF assms ok] v)
  from verify_pattern_cases[OF _ v] have "fs w' = fs (shm_rw_at_verify e w)" by simp
  then show ?thesis by (simp add: m shm_rw_finish_simps shm_rw_at_verify_fs assms)
qed

lemma shm_rw_main_view:
  assumes "0 \<le> open_ret e SHARE_FILE" and "0 \<le> ftruncate_ret e" and "mmap_ret e SHARE_FILE \<noteq> MAP_FAILED"
    and q: "\<forall>k. k \<noteq> clock w + 129 \<longrightarrow> other_writer e k = (\<lambda>m. m)"
  shows "((\<forall>j<128. other_writer e (clock w + 129) (\<lambda>i. if i < 128 then test_pattern i else mem w i) j = test_pattern j)
            \<and> fst (shm_rw_main e w) = 0) \<or>
         (\<exists>k<128. other_writer e (clock w + 129) (\<lambda>i. if i < 128 then test_pattern i else mem w i) k \<noteq> test_pattern k \<and>
            (\<forall>j<k. other_writer e (clock w + 129) (\<lambda>i. if i < 128 then test_pattern i else mem w i) j = test_pattern j) \<and>
            fst (shm_rw_main e w) = 1 \<and>
            trace (snd (shm_rw_main e w)) = trace w @ shm_rw_prologue e @
              map (\<lambda>j. Load j (test_pattern j)) [0..<k] @
              [Load k (other_writer e (clock w + 129) (\<lambda>i. if i < 128 then test_pattern i else mem w i) k),
               Printf ''[shm_rw_syscall] Mismatch at index %zu: expected 0x%016llX, got 0x%016llX\<newline>''
                 [ASize k, AHex (test_pattern k),
                  AHex (other_writer e (clock w + 129) (\<lambda>i. if i < 128 then test_pattern i else mem w i) k)],
               Printf ''[shm_rw_syscall] FAIL: data mismatch\<newline>'' []] @ shm_rw_cleanup e)"
proof -
  define m' where "m' = other_writer e (clock w + 129) (\<lambda>i. if i < 128 then test_pattern i else mem w i)"
  define wv where "wv = shm_rw_at_verify e w"
  obtain ok w' where v: "verify_pattern e 0 wv = (ok, w')"
    by (cases "verify_pattern e 0 wv")
  have m: "shm_rw_main e w = shm_rw_finish e ok w'"
    by (simp add: shm_rw_main_phases[OF assms(1-3)] v[unfolded wv_def])
  have mv: "mem wv = (\<lambda>j. if j < 128 then test_pattern j else mem w j)"
    unfolding wv_def using q by (intro shm_rw_at_verify_mem) simp
  have cv: "clock wv = clock w + 129"
    by (simp add: wv_def shm_rw_at_verify_clock)
  have qv: "\<forall>k. clock wv < k \<longrightarrow> other_writer e k = (\<lambda>m. m)"
    using q cv by simp
  have view: "other_writer e (clock wv) (mem wv) = m'"
    by (simp add: cv mv m'_def)
  have tv: "trace wv = trace w @ shm_rw_prologue e"
    by (simp add: wv_def shm_rw_at_verify_trace)
  from verify_pattern_view[OF qv _ v, unfolded view]
  consider "ok = 1" "\<forall>j. j < 128 \<longrightarrow> m' j = test_pattern j"
    | k where "ok = 0" "k < 128" "m' k \<noteq> test_pattern k" "\<forall>j. j < k \<longrightarrow> m' j = test_pattern j"
       "trace w' = trace wv @ map (\<lambda>j. Load j (test_pattern j)) [0..<k] @
                [Load k (m' k),
                 Printf ''[shm_rw_syscall] Mismatch at index %zu: expected 0x%016llX, got 0x%016llX\<newline>''
                   [ASize k, AHex (test_pattern k), AHex (m' k)]]"
    by auto
  then have "((\<forall>j<128. m' j = test_pattern j) \<and> fst (shm_rw_main e w) = 0) \<or>
         (\<exists>k<128. m' k \<noteq> test_pattern k \<and> (\<forall>j<k. m' j = test_pattern j) \<and>
            fst (shm_rw_main e w) = 1 \<and>
            trace (snd (shm_rw_main e w)) = trace w @ shm_rw_prologue e @
              map (\<lambda>j. Load j (test_pattern j)) [0..<k] @
              [Load k (m' k),
               Printf ''[shm_rw_syscall] Mismatch at index %zu: expected 0x%016llX, got 0x%016llX\<newline>''
                 [ASize k, AHex (test_pattern k), AHex (m' k)],
               Printf ''[shm_rw_syscall] FAIL: data mismatch\<newline>'' []] @ shm_rw_cleanup e)"
  proof cases
    case 1
    then show ?thesis by (simp add: m shm_rw_finish_simps)
  next
    case (2 k)
    have "m' k \<noteq> test_pattern k \<and> (\<forall>j<k. m' j = test_pattern j) \<and>
            fst (shm_rw_main e w) = 1 \<and>
            trace (snd (shm_rw_main e w)) = trace w @ shm_rw_prologue e @
              map (\<lambda>j. Load j (test_pattern j)) [0..<k] @
              [Load k (m' k),
               Printf ''[shm_rw_syscall] Mismatch at index %zu: expected 0x%016llX, got 0x%016llX\<newline>''
                 [ASize k, AHex (test_pattern k), AHex (m' k)],
               Printf ''[shm_rw_syscall] FAIL: data mismatch\<newline>'' []] @ shm_rw_cleanup e"
      using 2 by (simp add: m shm_rw_finish_simps tv)
    with 2(2) show ?thesis by (intro disjI2 exI[of _ k] conjI) simp_all
  qed
  then show ?thesis unfolding m'_def .
qed

lemma shm_rw_prologue_proj:
  "stores (shm_rw_prologue e) = map (\<lambda>j. (j, test_pattern j)) [0..<128]"
  "loads (shm_rw_prologue e) = []"
  "syscalls (shm_rw_prologue e) =
     [Open SHARE_FILE, Ftruncate (open_ret e SHARE_FILE) 1024, Mmap 1024 (open_ret e SHARE_FILE) 0]"
  "printed (shm_rw_prologue e) =
     [Printf ''[shm_rw_syscall] Creating shared memory region using file-based approach...\<newline>'' [],
      Printf ''[shm_rw_syscall] Successfully mapped shared memory to virtual address %p\<newline>''
        [APtr (mmap_ret e SHARE_FILE)],
      Printf ''[shm_rw_syscall] Initializing memory with test pattern...\<newline>'' [],
      Printf ''[shm_rw_syscall] Writing test pattern...\<newline>'' [],
      Printf ''[shm_rw_syscall] Reading back and verifying...\<newline>'' []]"
  by (simp_all add: shm_rw_prologue_def proj_simps)

lemma shm_rw_cleanup_proj:
  "stores (shm_rw_cleanup e) = []"
  "loads (shm_rw_cleanup e) = []"
  "syscalls (shm_rw_cleanup e) = shm_rw_cleanup e"
  "printed (shm_rw_cleanup e) = []"
  by (simp_all add: shm_rw_cleanup_def proj_simps)

lemma shm_rw_main_quiet:
  assumes "0 \<le> open_ret e SHARE_FILE" and "0 \<le> ftruncate_ret e" and "mmap_ret e SHARE_FILE \<noteq> MAP_FAILED"
    and q: "\<forall>k. other_writer e k = (\<lambda>m. m)"
  shows "fst (shm_rw_main e w) = 0"
proof -
  have "\<forall>k. k \<noteq> clock w + 129 \<longrightarrow> other_writer e k = (\<lambda>m. m)" using q by simp
  from shm_rw_main_view[OF assms(1-3) this] show ?thesis
    by (auto simp: q)
qed

section \<open>The answers of the cleanup calls are not looked at\<close>

lemma write_pattern_env:
  "other_writer e' = other_writer e \<Longrightarrow> write_pattern e' i w = write_pattern e i w"
proof (induction e i w rule: write_pattern.induct)
  case (1 e i w)
  have st: "\<And>v. store e' i v w = store e i v w"
    by (simp add: store_def intrude_def "1.prems")
  show ?case
  proof (cases "i < SHARE_SIZE div 8")
    case True
    then show ?thesis
      using "1.IH"[OF True "1.prems"]
      by (subst write_pattern.simps, subst (2) write_pattern.simps) (simp add: st)
  next
    case False
    then show ?thesis
      by (subst write_pattern.simps, subst (2) write_pattern.simps) simp
  qed
qed

lemma verify_pattern_env:
  "other_writer e' = other_writer e \<Longrightarrow> verify_pattern e' i w = verify_pattern e i w"
proof (induction e i w rule: verify_pattern.induct)
  case (1 e i w)
  have ld: "load e' i w = load e i w"
    by (simp add: load_def intrude_def "1.prems")
  show ?case
  proof (cases "i < SHARE_SIZE div 8")
    case True
    obtain v w1 where l: "load e i w = (v, w1)" by (cases "load e i w")
    show ?thesis
    proof (cases "v = test_pattern i")
      case eq: True
      have "verify_pattern e' (i + 1) w1 = verify_pattern e (i + 1) w1"
        by (rule "1.IH"[of v w1]) (use True l eq "1.prems" in simp_all)
      then show ?thesis
        using True l eq
        by (subst verify_pattern.simps, subst (2) verify_pattern.simps) (simp add: ld)
    next
      case False
      then show ?thesis
        using True l
        by (subst verify_pattern.simps, subst (2) verify_pattern.simps) (simp add: ld)
    qed
  next
    case False
    then show ?thesis
      by (subst verify_pattern.simps, subst (2) verify_pattern.simps) simp
  qed
qed

lemma shm_rw_main_ignores_cleanup_results:
  assumes "0 \<le> open_ret e SHARE_FILE" and "0 \<le> ftruncate_ret e" and "mmap_ret e SHARE_FILE \<noteq> MAP_FAILED"
  shows "fst (shm_rw_main (e\<lparr>munmap_ret := a, close_ret := b, unlink_ok := c\<rparr>) w) = fst (shm_rw_main e w)"
    and "trace (snd (shm_rw_main (e\<lparr>munmap_ret := a, close_ret := b, unlink_ok := c\<rparr>) w)) =
         trace (snd (shm_rw_main e w))"
proof -
  let ?e = "e\<lparr>munmap_ret := a, close_ret := b, unlink_ok := c\<rparr>"
  have ow: "other_writer ?e = other_writer e" by simp
  have av: "shm_rw_at_verify ?e w = shm_rw_at_verify e w"
    by (simp add: shm_rw_at_verify_def write_pattern_env[OF ow] sys_open_def sys_ftruncate_def
        sys_mmap_def memset0_def intrude_def Let_def)
  have v: "verify_pattern ?e 0 (shm_rw_at_verify ?e w) = verify_pattern e 0 (shm_rw_at_verify e w)"
    by (simp add: av verify_pattern_env[OF ow])
  have a': "0 \<le> open_ret ?e SHARE_FILE" "0 \<le> ftruncate_ret ?e" "mmap_ret ?e SHARE_FILE \<noteq> MAP_FAILED"
    using assms by simp_all
  show "fst (shm_rw_main ?e w) = fst (shm_rw_main e w)"
    by (simp add: shm_rw_main_phases[OF a'] shm_rw_main_phases[OF assms] v shm_rw_finish_simps)
  show "trace (snd (shm_rw_main ?e w)) = trace (snd (shm_rw_main e w))"
    by (simp add: shm_rw_main_phases[OF a'] shm_rw_main_phases[OF assms] v shm_rw_finish_simps
        shm_rw_cleanup_def)
qed

section \<open>The Fixed-Address Mapper: its phases\<close>

lemmas fa_texts = fa_hello_def fa_note_def fa_nodev_def fa_devopen_def fa_devmmapfail_def
  fa_devmapped_def fa_usefile_def fa_mapped_def fa_simple_def fa_original_def fa_writing_def
  fa_readback_def fa_pass1_def fa_fail1_def fa_multi_def fa_location_def fa_failat_def
  fa_passall_def fa_failsome_def fa_restoring_def fa_done_def dev_mem_def sim_file_def

lemmas try_dev_mem_eq = try_dev_mem_def [folded fa_texts]

lemmas sweep_eq = sweep.simps [folded fa_texts]

lemmas fixed_addr_mapped_eq = fixed_addr_mapped_def [folded fa_texts]

lemmas fixed_addr_check_eq = fixed_addr_check_def [folded fa_texts]

lemmas fixed_addr_fallback_eq = fixed_addr_fallback_def [folded fa_texts]

lemmas fixed_addr_main_eq = fixed_addr_main_def [folded fa_texts]


subsection \<open>What each primitive does to each field of the world\<close>

lemma printf_fields:
  "trace (printf f a w) = trace w @ [Printf f a]" "fs (printf f a w) = fs w"
  "mem (printf f a w) = mem w" "clock (printf f a w) = clock w"
  by (simp_all add: printf_def emit_def)

lemma perror_fields:
  "trace (perror s w) = trace w @ [Perror s]" "fs (perror s w) = fs w"
  "mem (perror s w) = mem w" "clock (perror s w) = clock w"
  by (simp_all add: perror_def emit_def)

lemma fence_fields:
  "trace (write_mem_fence w) = trace w @ [Fence]" "fs (write_mem_fence w) = fs w"
  "mem (write_mem_fence w) = mem w" "clock (write_mem_fence w) = clock w"
  "trace (read_mem_fence w) = trace w @ [Fence]" "fs (read_mem_fence w) = fs w"
  "mem (read_mem_fence w) = mem w" "clock (read_mem_fence w) = clock w"
  by (simp_all add: write_mem_fence_def read_mem_fence_def emit_def)

lemma store_fields:
  "trace (store e i v w) = trace w @ [Store i v]" "fs (store e i v w) = fs w"
  "mem (store e i v w) = (other_writer e (clock w) (mem w))(i := v)"
  "clock (store e i v w) = clock w + 1"
  by (simp_all add: store_def intrude_def emit_def)

lemma load_fields:
  "fst (load e i w) = other_writer e (clock w) (mem w) i"
  "trace (snd (load e i w)) = trace w @ [Load i (other_writer e (clock w) (mem w) i)]"
  "fs (snd (load e i w)) = fs w"
  "mem (snd (load e i w)) = other_writer e (clock w) (mem w)"
  "clock (snd (load e i w)) = clock w + 1"
  by (simp_all add: load_def intrude_def emit_def Let_def)

lemma sys_open_fields:
  "fst (sys_open e p c w) = open_ret e p"
  "trace (snd (sys_open e p c w)) = trace w @ [Open p]"
  "fs (snd (sys_open e p c w)) = (if 0 \<le> open_ret e p \<and> c then insert p (fs w) else fs w)"
  "mem (snd (sys_open e p c w)) = mem w" "clock (snd (sys_open e p c w)) = clock w"
  by (simp_all add: sys_open_def emit_def Let_def)

lemma sys_ftruncate_fields:
  "fst (sys_ftruncate e fd n w) = ftruncate_ret e"
  "trace (snd (sys_ftruncate e fd n w)) = trace w @ [Ftruncate fd n]"
  "fs (snd (sys_ftruncate e fd n w)) = fs w"
  "mem (snd (sys_ftruncate e fd n w)) = mem w" "clock (snd (sys_ftruncate e fd n w)) = clock w"
  by (simp_all add: sys_ftruncate_def emit_def)

lemma sys_mmap_fields:
  "fst (sys_mmap e p n fd off w) = mmap_ret e p"
  "trace (snd (sys_mmap e p n fd off w)) = trace w @ [Mmap n fd off]"
  "fs (snd (sys_mmap e p n fd off w)) = fs w"
  "mem (snd (sys_mmap e p n fd off w)) = mem w" "clock (snd (sys_mmap e p n fd off w)) = clock w"
  by (simp_all add: sys_mmap_def emit_def)

lemma sys_munmap_fields:
  "fst (sys_munmap e a n w) = munmap_ret e"
  "trace (snd (sys_munmap e a n w)) = trace w @ [Munmap a n]"
  "fs (snd (sys_munmap e a n w)) = fs w"
  "mem (snd (sys_munmap e a n w)) = mem w" "clock (snd (sys_munmap e a n w)) = clock w"
  by (simp_all add: sys_munmap_def emit_def)

lemma sys_close_fields:
  "fst (sys_close e fd w) = close_ret e"
  "trace (snd (sys_close e fd w)) = trace w @ [Close fd]"
  "fs (snd (sys_close e fd w)) = fs w"
  "mem (snd (sys_close e fd w)) = mem w" "clock (snd (sys_close e fd w)) = clock w"
  by (simp_all add: sys_close_def emit_def)

lemma sys_access_fields:
  "fst (sys_access p w) = (if p \<in> fs w then 0 else - 1)"
  "trace (snd (sys_access p w)) = trace w @ [Access p]"
  "fs (snd (sys_access p w)) = fs w"
  "mem (snd (sys_access p w)) = mem w" "clock (snd (sys_access p w)) = clock w"
  by (simp_all add: sys_access_def emit_def)

lemma sys_unlink_fields:
  "trace (snd (sys_unlink e p w)) = trace w @ [Unlink p]"
  "fs (snd (sys_unlink e p w)) = (if unlink_ok e then fs w - {p} else fs w)"
  "mem (snd (sys_unlink e p w)) = mem w" "clock (snd (sys_unlink e p w)) = clock w"
  by (auto simp: sys_unlink_def emit_def Let_def)

lemmas fields = printf_fields perror_fields fence_fields store_fields load_fields
  sys_open_fields sys_ftruncate_fields sys_mmap_fields sys_munmap_fields sys_close_fields
  sys_access_fields sys_unlink_fields

lemma if_fields:
  "trace (if c then w1 else w2) = (if c then trace w1 else trace w2)"
  "fs (if c then w1 else w2) = (if c then fs w1 else fs w2)"
  "mem (if c then w1 else w2) = (if c then mem w1 else mem w2)"
  "clock (if c then w1 else w2) = (if c then clock w1 else clock w2)"
  by simp_all

subsection \<open>The loop and the phases\<close>

lemma sweep_unroll:
  "sweep e 0 t w = sweep_iter e 3 (sweep_iter e 2 (sweep_iter e 1 (sweep_iter e 0 (t, w))))"
proof -
  have step: "sweep e i t w = sweep e j (fst (sweep_iter e i (t, w))) (snd (sweep_iter e i (t, w)))"
    if "i < 4" "j = i + 1" for i j t w
    using that
    by (subst sweep_eq) (simp add: sweep_iter_def Let_def split_beta)
  have stop: "sweep e 4 t w = (t, w)" for t w
    by (subst sweep_eq) simp
  have s0: "sweep e 0 t w = sweep e 1 (fst (sweep_iter e 0 (t, w))) (snd (sweep_iter e 0 (t, w)))" for t w
    by (rule step) simp_all
  have s1: "sweep e 1 t w = sweep e 2 (fst (sweep_iter e 1 (t, w))) (snd (sweep_iter e 1 (t, w)))" for t w
    by (rule step) simp_all
  have s2: "sweep e 2 t w = sweep e 3 (fst (sweep_iter e 2 (t, w))) (snd (sweep_iter e 2 (t, w)))" for t w
    by (rule step) simp_all
  have s3: "sweep e 3 t w = sweep e 4 (fst (sweep_iter e 3 (t, w))) (snd (sweep_iter e 3 (t, w)))" for t w
    by (rule step) simp_all
  show ?thesis
    by (simp only: s0 s1 s2 s3 stop prod.collapse)
qed

lemma sweep_iter_simps:
  "fst (sweep_iter e i (t, w)) = (if sweep_seen e i w \<noteq> test_pattern i then 0 else t)"
  "trace (snd (sweep_iter e i (t, w))) = trace w @ sweep_events i (sweep_seen e i w)"
  "fs (snd (sweep_iter e i (t, w))) = fs w"
  "clock (snd (sweep_iter e i (t, w))) = clock w + 2"
  "mem (snd (sweep_iter e i (t, w))) =
     other_writer e (clock w + 1) ((other_writer e (clock w) (mem w))(i := test_pattern i))"
  by (simp_all add: sweep_iter_def sweep_events_def sweep_seen_def fields if_fields Let_def split_beta)

lemma fixed_addr_mapped_phases:
  "fixed_addr_mapped e fd mem_ptr w =
     fixed_addr_finish e fd mem_ptr (fixed_addr_orig e w)
       (fst (sweep e 0 1 (fixed_addr_at_sweep e mem_ptr w)))
       (snd (sweep e 0 1 (fixed_addr_at_sweep e mem_ptr w)))"
  by (simp add: fixed_addr_mapped_eq fixed_addr_finish_def fixed_addr_at_sweep_def fixed_addr_orig_def
      Let_def split_beta fields)

lemma fixed_addr_at_sweep_simps:
  "trace (fixed_addr_at_sweep e mem_ptr w) = trace w @
     [Printf fa_mapped [ALong FIXED_PHYS_ADDR, APtr mem_ptr],
      Printf fa_simple [],
      Fence, Load 0 (fixed_addr_orig e w),
      Printf fa_original [ALong FIXED_PHYS_ADDR, AHex (fixed_addr_orig e w)],
      Printf fa_writing [AHex TEST_VALUE],
      Fence, Store 0 TEST_VALUE, Fence, Fence, Load 0 (fixed_addr_readback e w),
      Printf fa_readback [AHex (fixed_addr_readback e w)],
      if fixed_addr_readback e w = TEST_VALUE then Printf fa_pass1 [] else Printf fa_fail1 [],
      Printf fa_multi []]"
  "fs (fixed_addr_at_sweep e mem_ptr w) = fs w"
  "clock (fixed_addr_at_sweep e mem_ptr w) = clock w + 3"
  "mem (fixed_addr_at_sweep e mem_ptr w) =
     other_writer e (clock w + 2)
       ((other_writer e (clock w + 1) (other_writer e (clock w) (mem w)))(0 := TEST_VALUE))"
  by (simp_all add: fixed_addr_at_sweep_def fixed_addr_orig_def fixed_addr_readback_def fields if_fields Let_def)

lemma fixed_addr_finish_simps:
  "fst (fixed_addr_finish e fd mem_ptr orig t w) = (if t \<noteq> 0 then 0 else 1)"
  "trace (snd (fixed_addr_finish e fd mem_ptr orig t w)) = trace w @
     [if t \<noteq> 0 then Printf fa_passall [] else Printf fa_failsome [],
      Printf fa_restoring [],
      Fence, Store 0 orig, Fence,
      Munmap mem_ptr MAP_SIZE, Close fd, Access sim_file] @
     (if sim_file \<in> fs w then [Unlink sim_file] else []) @
     [Printf fa_done []]"
  "fs (snd (fixed_addr_finish e fd mem_ptr orig t w)) =
     (if unlink_ok e then fs w - {sim_file} else fs w)"
  "mem (snd (fixed_addr_finish e fd mem_ptr orig t w)) = (other_writer e (clock w) (mem w))(0 := orig)"
  by (simp_all add: fixed_addr_finish_def fields if_fields Let_def)

lemma sweep_iter_fields:
  "fst (sweep_iter e i tw) = (if sweep_seen e i (snd tw) \<noteq> test_pattern i then 0 else fst tw)"
  "trace (snd (sweep_iter e i tw)) = trace (snd tw) @ sweep_events i (sweep_seen e i (snd tw))"
  "fs (snd (sweep_iter e i tw)) = fs (snd tw)"
  "clock (snd (sweep_iter e i tw)) = clock (snd tw) + 2"
  "mem (snd (sweep_iter e i tw)) =
     other_writer e (clock (snd tw) + 1)
       ((other_writer e (clock (snd tw)) (mem (snd tw)))(i := test_pattern i))"
  by (cases tw; simp add: sweep_iter_simps)+

lemma fixed_addr_main_setup:
  "fixed_addr_main e junk w =
     (if takes_fallback e \<and> open_ret e sim_file < 0
      then (1, perror ''Failed to create temporary file'' (fixed_addr_setup_world e w))
      else if takes_fallback e \<and> ftruncate_ret e < 0
      then (1, snd (sys_unlink e sim_file (snd (sys_close e (open_ret e sim_file)
                 (perror ''ftruncate failed'' (fixed_addr_setup_world e w))))))
      else fixed_addr_check e (fixed_addr_fd e) (fixed_addr_ptr e) (fixed_addr_setup_world e w))"
proof -
  consider (a) "open_ret e dev_mem < 0" "open_ret e sim_file < 0"
    | (b) "open_ret e dev_mem < 0" "0 \<le> open_ret e sim_file" "ftruncate_ret e < 0"
    | (c) "open_ret e dev_mem < 0" "0 \<le> open_ret e sim_file" "0 \<le> ftruncate_ret e"
    | (d) "0 \<le> open_ret e dev_mem" "mmap_ret e dev_mem = MAP_FAILED" "open_ret e sim_file < 0"
    | (e) "0 \<le> open_ret e dev_mem" "mmap_ret e dev_mem = MAP_FAILED" "0 \<le> open_ret e sim_file" "ftruncate_ret e < 0"
    | (f) "0 \<le> open_ret e dev_mem" "mmap_ret e dev_mem = MAP_FAILED" "0 \<le> open_ret e sim_file" "0 \<le> ftruncate_ret e"
    | (g) "0 \<le> open_ret e dev_mem" "mmap_ret e dev_mem \<noteq> MAP_FAILED"
    by linarith
  then show ?thesis
  proof cases
    case a then show ?thesis
      by (simp add: fixed_addr_main_eq try_dev_mem_eq fixed_addr_fallback_eq takes_fallback_def
          fixed_addr_setup_world_def fixed_addr_setup_events_def prim_defs Let_def)
  next
    case b then show ?thesis
      by (simp add: fixed_addr_main_eq try_dev_mem_eq fixed_addr_fallback_eq takes_fallback_def
          fixed_addr_setup_world_def fixed_addr_setup_events_def prim_defs Let_def)
  next
    case c then show ?thesis
      by (simp add: fixed_addr_main_eq try_dev_mem_eq fixed_addr_fallback_eq takes_fallback_def
          fixed_addr_setup_world_def fixed_addr_setup_events_def fixed_addr_fd_def fixed_addr_ptr_def
          prim_defs Let_def)
  next
    case d then show ?thesis
      by (simp add: fixed_addr_main_eq try_dev_mem_eq fixed_addr_fallback_eq takes_fallback_def
          fixed_addr_setup_world_def fixed_addr_setup_events_def prim_defs Let_def)
  next
    case e then show ?thesis
      by (simp add: fixed_addr_main_eq try_dev_mem_eq fixed_addr_fallback_eq takes_fallback_def
          fixed_addr_setup_world_def fixed_addr_setup_events_def prim_defs Let_def)
  next
    case f then show ?thesis
      by (simp add: fixed_addr_main_eq try_dev_mem_eq fixed_addr_fallback_eq takes_fallback_def
          fixed_addr_setup_world_def fixed_addr_setup_events_def fixed_addr_fd_def fixed_addr_ptr_def
          prim_defs Let_def)
  next
    case g then show ?thesis
      by (simp add: fixed_addr_main_eq try_dev_mem_eq takes_fallback_def
          fixed_addr_setup_world_def fixed_addr_setup_events_def fixed_addr_fd_def fixed_addr_ptr_def
          prim_defs Let_def)
  qed
qed

lemma fixed_addr_main_mapped:
  "reaches_mapped e \<Longrightarrow>
   fixed_addr_main e junk w =
     fixed_addr_mapped e (fixed_addr_fd e) (fixed_addr_ptr e) (fixed_addr_setup_world e w)"
  by (auto simp: fixed_addr_main_setup reaches_mapped_def fixed_addr_check_eq)

lemma fixed_addr_setup_world_fields:
  "trace (fixed_addr_setup_world e w) = trace w @ fixed_addr_setup_events e"
  "fs (fixed_addr_setup_world e w) =
     (if takes_fallback e \<and> 0 \<le> open_ret e sim_file then insert sim_file (fs w) else fs w)"
  "mem (fixed_addr_setup_world e w) = mem w"
  "clock (fixed_addr_setup_world e w) = clock w"
  by (simp_all add: fixed_addr_setup_world_def)

lemma fixed_addr_mapped_run:
  obtains rv v0 v1 v2 v3 where
    "trace (snd (fixed_addr_mapped e fd p w)) =
       trace w @ fixed_addr_mapped_events fd p (fixed_addr_orig e w) rv v0 v1 v2 v3 (sim_file \<in> fs w)"
    "fst (fixed_addr_mapped e fd p w) =
       (if v0 = test_pattern 0 \<and> v1 = test_pattern 1 \<and> v2 = test_pattern 2 \<and> v3 = test_pattern 3
        then 0 else 1)"
    "rv = fixed_addr_readback e w"
proof -
  define wS where "wS = fixed_addr_at_sweep e p w"
  define t0 where "t0 = sweep_iter e 0 (1, wS)"
  define t1 where "t1 = sweep_iter e 1 t0"
  define t2 where "t2 = sweep_iter e 2 t1"
  define t3 where "t3 = sweep_iter e 3 t2"
  define v0 where "v0 = sweep_seen e 0 wS"
  define v1 where "v1 = sweep_seen e 1 (snd t0)"
  define v2 where "v2 = sweep_seen e 2 (snd t1)"
  define v3 where "v3 = sweep_seen e 3 (snd t2)"
  have sw: "sweep e 0 1 wS = t3"
    by (simp add: sweep_unroll t3_def t2_def t1_def t0_def)
  have f0: "fst t0 = (if v0 \<noteq> test_pattern 0 then 0 else 1)"
      "trace (snd t0) = trace wS @ sweep_events 0 v0" "fs (snd t0) = fs wS"
    by (simp_all add: t0_def v0_def sweep_iter_fields)
  have f1: "fst t1 = (if v1 \<noteq> test_pattern 1 then 0 else fst t0)"
      "trace (snd t1) = trace (snd t0) @ sweep_events 1 v1" "fs (snd t1) = fs (snd t0)"
    by (simp_all add: t1_def v1_def sweep_iter_fields)
  have f2: "fst t2 = (if v2 \<noteq> test_pattern 2 then 0 else fst t1)"
      "trace (snd t2) = trace (snd t1) @ sweep_events 2 v2" "fs (snd t2) = fs (snd t1)"
    by (simp_all add: t2_def v2_def sweep_iter_fields)
  have f3: "fst t3 = (if v3 \<noteq> test_pattern 3 then 0 else fst t2)"
      "trace (snd t3) = trace (snd t2) @ sweep_events 3 v3" "fs (snd t3) = fs (snd t2)"
    by (simp_all add: t3_def v3_def sweep_iter_fields)
  have flag: "fst t3 = (if v0 = test_pattern 0 \<and> v1 = test_pattern 1 \<and> v2 = test_pattern 2 \<and> v3 = test_pattern 3
        then 1 else 0)"
    by (simp add: f0 f1 f2 f3)
  have tr: "trace (snd t3) = trace wS @ sweep_events 0 v0 @ sweep_events 1 v1 @ sweep_events 2 v2 @ sweep_events 3 v3"
    by (simp add: f0 f1 f2 f3)
  have fs3: "fs (snd t3) = fs w"
    by (simp add: f0 f1 f2 f3 wS_def fixed_addr_at_sweep_simps)
  have m: "fixed_addr_mapped e fd p w = fixed_addr_finish e fd p (fixed_addr_orig e w) (fst t3) (snd t3)"
    by (simp add: fixed_addr_mapped_phases sw[unfolded wS_def])
  show thesis
  proof (rule that[of "fixed_addr_readback e w" v0 v1 v2 v3])
    show "trace (snd (fixed_addr_mapped e fd p w)) =
       trace w @ fixed_addr_mapped_events fd p (fixed_addr_orig e w) (fixed_addr_readback e w) v0 v1 v2 v3 (sim_file \<in> fs w)"
      by (simp add: m fixed_addr_finish_simps tr fs3 flag wS_def fixed_addr_at_sweep_simps
          fixed_addr_mapped_events_def)
    show "fst (fixed_addr_mapped e fd p w) =
       (if v0 = test_pattern 0 \<and> v1 = test_pattern 1 \<and> v2 = test_pattern 2 \<and> v3 = test_pattern 3
        then 0 else 1)"
      by (simp add: m fixed_addr_finish_simps flag)
  qed simp
qed


lemma fixed_addr_mapped_mem0:
  "mem (snd (fixed_addr_mapped e fd p w)) 0 = fixed_addr_orig e w"
  by (simp add: fixed_addr_mapped_phases fixed_addr_finish_simps)

lemma fixed_addr_mapped_mem123:
  assumes "\<forall>k m. other_writer e k m 1 = m 1 \<and> other_writer e k m 2 = m 2 \<and> other_writer e k m 3 = m 3"
  shows "mem (snd (fixed_addr_mapped e fd p w)) 1 = test_pattern 1"
    and "mem (snd (fixed_addr_mapped e fd p w)) 2 = test_pattern 2"
    and "mem (snd (fixed_addr_mapped e fd p w)) 3 = test_pattern 3"
  using assms
  by (simp_all add: fixed_addr_mapped_phases fixed_addr_finish_simps sweep_unroll sweep_iter_fields)

lemma sweep_events_proj:
  "stores (sweep_events i v) = [(i, test_pattern i)]"
  "loads (sweep_events i v) = [(i, v)]"
  "syscalls (sweep_events i v) = []"
  by (simp_all add: sweep_events_def proj_simps)

lemma fixed_addr_mapped_events_proj:
  "stores (fixed_addr_mapped_events fd p orig rv v0 v1 v2 v3 there) =
     [(0, TEST_VALUE), (0, test_pattern 0), (1, test_pattern 1), (2, test_pattern 2),
      (3, test_pattern 3), (0, orig)]"
  "loads (fixed_addr_mapped_events fd p orig rv v0 v1 v2 v3 there) =
     [(0, orig), (0, rv), (0, v0), (1, v1), (2, v2), (3, v3)]"
  "syscalls (fixed_addr_mapped_events fd p orig rv v0 v1 v2 v3 there) =
     [Munmap p MAP_SIZE, Close fd, Access sim_file] @ (if there then [Unlink sim_file] else [])"
  by (simp_all add: fixed_addr_mapped_events_def proj_simps sweep_events_proj)

lemma fixed_addr_setup_events_proj:
  "stores (fixed_addr_setup_events e) = []"
  "loads (fixed_addr_setup_events e) = []"
  "syscalls (fixed_addr_setup_events e) =
     [Open dev_mem] @
     (if open_ret e dev_mem < 0 then []
      else [Mmap (MAP_SIZE + (FIXED_PHYS_ADDR - (FIXED_PHYS_ADDR AND NOT (page_size e - 1))))
              (open_ret e dev_mem) (FIXED_PHYS_ADDR AND NOT (page_size e - 1))] @
           (if mmap_ret e dev_mem = MAP_FAILED then [Close (open_ret e dev_mem)] else [])) @
     (if takes_fallback e
      then [Open sim_file] @
           (if 0 \<le> open_ret e sim_file
            then [Ftruncate (open_ret e sim_file) (FIXED_PHYS_ADDR + MAP_SIZE)] @
                 (if 0 \<le> ftruncate_ret e
                  then [Mmap MAP_SIZE (open_ret e sim_file) FIXED_PHYS_ADDR]
                  else [])
            else [])
      else [])"
  by (simp_all add: fixed_addr_setup_events_def proj_simps)

lemma fixed_addr_main_run:
  assumes "reaches_mapped e"
  obtains rv v0 v1 v2 v3 where
    "trace (snd (fixed_addr_main e junk w)) =
       trace w @ fixed_addr_setup_events e @
       fixed_addr_mapped_events (fixed_addr_fd e) (fixed_addr_ptr e)
         (other_writer e (clock w) (mem w) 0) rv v0 v1 v2 v3 (takes_fallback e \<or> sim_file \<in> fs w)"
    "fst (fixed_addr_main e junk w) =
       (if v0 = test_pattern 0 \<and> v1 = test_pattern 1 \<and> v2 = test_pattern 2 \<and> v3 = test_pattern 3
        then 0 else 1)"
proof -
  let ?w = "fixed_addr_setup_world e w"
  obtain rv v0 v1 v2 v3 where r:
    "trace (snd (fixed_addr_mapped e (fixed_addr_fd e) (fixed_addr_ptr e) ?w)) =
       trace ?w @ fixed_addr_mapped_events (fixed_addr_fd e) (fixed_addr_ptr e) (fixed_addr_orig e ?w)
         rv v0 v1 v2 v3 (sim_file \<in> fs ?w)"
    "fst (fixed_addr_mapped e (fixed_addr_fd e) (fixed_addr_ptr e) ?w) =
       (if v0 = test_pattern 0 \<and> v1 = test_pattern 1 \<and> v2 = test_pattern 2 \<and> v3 = test_pattern 3
        then 0 else 1)"
    "rv = fixed_addr_readback e ?w"
    by (rule fixed_addr_mapped_run)
  have there: "(sim_file \<in> fs ?w) = (takes_fallback e \<or> sim_file \<in> fs w)"
    using assms by (auto simp: fixed_addr_setup_world_fields reaches_mapped_def)
  have o: "fixed_addr_orig e ?w = other_writer e (clock w) (mem w) 0"
    by (simp add: fixed_addr_orig_def fixed_addr_setup_world_fields)
  note r1 = r(1)[unfolded there o fixed_addr_setup_world_fields(1)]
  show thesis
    by (rule that[of rv v0 v1 v2 v3]) (simp_all add: fixed_addr_main_mapped[OF assms] r1 r(2))
qed

lemma fixed_addr_main_mem0:
  "reaches_mapped e \<Longrightarrow>
   mem (snd (fixed_addr_main e junk w)) 0 = other_writer e (clock w) (mem w) 0"
  by (simp add: fixed_addr_main_mapped fixed_addr_mapped_mem0 fixed_addr_orig_def
      fixed_addr_setup_world_fields)


lemma reaches_mapped_calm:
  "reaches_mapped calm_env" "takes_fallback calm_env"
  "reaches_mapped glitch_env" "takes_fallback glitch_env"
  "reaches_mapped priv_env" "\<not> takes_fallback priv_env"
  by (simp_all add: reaches_mapped_def takes_fallback_def fixed_addr_ptr_def glitch_env_def
      priv_env_def calm_env_def dev_mem_def sim_file_def MAP_FAILED_def FIXED_PHYS_ADDR_def)



subsection \<open>Setup failures\<close>

lemma fixed_addr_check_trace:
  "\<exists>rest. trace (snd (fixed_addr_check e fd p w)) = trace w @ rest"
proof (cases "p = MAP_FAILED")
  case True
  then show ?thesis
    by (simp add: fixed_addr_check_eq fields if_fields Let_def split_beta)
next
  case False
  obtain rv v0 v1 v2 v3 where
    "trace (snd (fixed_addr_mapped e fd p w)) =
       trace w @ fixed_addr_mapped_events fd p (fixed_addr_orig e w) rv v0 v1 v2 v3 (sim_file \<in> fs w)"
    by (rule fixed_addr_mapped_run)
  with False show ?thesis
    by (simp add: fixed_addr_check_eq)
qed

lemma fixed_addr_main_trace_prefix:
  "\<exists>rest. trace (snd (fixed_addr_main e junk w)) = trace w @ fixed_addr_setup_events e @ rest"
proof -
  obtain rest where
    "trace (snd (fixed_addr_check e (fixed_addr_fd e) (fixed_addr_ptr e) (fixed_addr_setup_world e w))) =
       trace (fixed_addr_setup_world e w) @ rest"
    using fixed_addr_check_trace by blast
  then show ?thesis
    by (simp add: fixed_addr_main_setup fields fixed_addr_setup_world_fields)
qed

lemma fixed_addr_main_fatal:
  assumes "takes_fallback e"
    and "open_ret e sim_file < 0 \<or> ftruncate_ret e < 0 \<or> mmap_ret e sim_file = MAP_FAILED"
  shows "fst (fixed_addr_main e junk w) = 1"
    and "stores (trace (snd (fixed_addr_main e junk w))) = stores (trace w)"
    and "loads (trace (snd (fixed_addr_main e junk w))) = loads (trace w)"
proof -
  consider "open_ret e sim_file < 0" | "0 \<le> open_ret e sim_file" "ftruncate_ret e < 0"
    | "0 \<le> open_ret e sim_file" "0 \<le> ftruncate_ret e" "mmap_ret e sim_file = MAP_FAILED"
    using assms(2) by linarith
  then have "fst (fixed_addr_main e junk w) = 1
      \<and> stores (trace (snd (fixed_addr_main e junk w))) = stores (trace w)
      \<and> loads (trace (snd (fixed_addr_main e junk w))) = loads (trace w)"
  proof cases
    case 1
    then show ?thesis using assms(1)
      by (simp add: fixed_addr_main_setup fields fixed_addr_setup_world_fields proj_simps
          fixed_addr_setup_events_proj)
  next
    case 2
    then show ?thesis using assms(1)
      by (simp add: fixed_addr_main_setup fields fixed_addr_setup_world_fields proj_simps
          fixed_addr_setup_events_proj)
  next
    case 3
    then show ?thesis using assms(1)
      by (simp add: fixed_addr_main_setup fixed_addr_check_eq fixed_addr_ptr_def fields if_fields
          fixed_addr_setup_world_fields proj_simps fixed_addr_setup_events_proj Let_def split_beta)
  qed
  then show "fst (fixed_addr_main e junk w) = 1"
    and "stores (trace (snd (fixed_addr_main e junk w))) = stores (trace w)"
    and "loads (trace (snd (fixed_addr_main e junk w))) = loads (trace w)"
    by simp_all
qed

lemma fixed_addr_main_runs_test:
  assumes "reaches_mapped e" and "trace w = []"
  shows "Printf fa_simple [] \<in> set (trace (snd (fixed_addr_main e junk w)))"
    and "last (trace (snd (fixed_addr_main e junk w))) = Printf fa_done []"
    and "loads (trace (snd (fixed_addr_main e junk w))) \<noteq> []"
proof -
  from assms(1) obtain rv v0 v1 v2 v3 where r:
    "trace (snd (fixed_addr_main e junk w)) =
       trace w @ fixed_addr_setup_events e @
       fixed_addr_mapped_events (fixed_addr_fd e) (fixed_addr_ptr e) (other_writer e (clock w) (mem w) 0)
         rv v0 v1 v2 v3 (takes_fallback e \<or> sim_file \<in> fs w)"
    by (rule fixed_addr_main_run)
  show "Printf fa_simple [] \<in> set (trace (snd (fixed_addr_main e junk w)))"
    by (simp add: r fixed_addr_mapped_events_def)
  show "last (trace (snd (fixed_addr_main e junk w))) = Printf fa_done []"
    by (simp add: r fixed_addr_mapped_events_def)
  show "loads (trace (snd (fixed_addr_main e junk w))) \<noteq> []"
    by (simp add: r proj_simps fixed_addr_mapped_events_proj)
qed

lemma shm_rw_main_mmap_fails:
  assumes "0 \<le> open_ret e SHARE_FILE" and "0 \<le> ftruncate_ret e" and "mmap_ret e SHARE_FILE = MAP_FAILED"
  shows "fst (shm_rw_main e w) = 1"
    and "trace (snd (shm_rw_main e w)) = trace w @
      [Printf ''[shm_rw_syscall] Creating shared memory region using file-based approach...\<newline>'' [],
       Open SHARE_FILE, Ftruncate (open_ret e SHARE_FILE) 1024, Mmap 1024 (open_ret e SHARE_FILE) 0,
       Perror ''mmap failed'', Close (open_ret e SHARE_FILE), Unlink SHARE_FILE]"
  using assms by (simp_all add: shm_rw_main_def prim_defs Let_def SHARE_SIZE_def)

subsection \<open>The exit code is the outcome of the sweep\<close>

lemma fixed_addr_exit_code_from_sweep:
  assumes "reaches_mapped e" and "trace w = []"
  shows "fst (fixed_addr_main e junk w) =
           (if drop 2 (loads (trace (snd (fixed_addr_main e junk w)))) =
                 [(0, test_pattern 0), (1, test_pattern 1), (2, test_pattern 2), (3, test_pattern 3)]
            then 0 else 1)"
proof -
  from assms(1) obtain rv v0 v1 v2 v3 where r:
    "trace (snd (fixed_addr_main e junk w)) =
       trace w @ fixed_addr_setup_events e @
       fixed_addr_mapped_events (fixed_addr_fd e) (fixed_addr_ptr e) (other_writer e (clock w) (mem w) 0)
         rv v0 v1 v2 v3 (takes_fallback e \<or> sim_file \<in> fs w)"
    "fst (fixed_addr_main e junk w) =
       (if v0 = test_pattern 0 \<and> v1 = test_pattern 1 \<and> v2 = test_pattern 2 \<and> v3 = test_pattern 3
        then 0 else 1)"
    by (rule fixed_addr_main_run)
  have "loads (trace (snd (fixed_addr_main e junk w))) =
      [(0, other_writer e (clock w) (mem w) 0), (0, rv), (0, v0), (1, v1), (2, v2), (3, v3)]"
    by (simp add: r(1) assms(2) proj_simps fixed_addr_setup_events_proj fixed_addr_mapped_events_proj)
  then show ?thesis
    by (simp add: r(2))
qed

section \<open>The properties claimed of the two programs\<close>

text \<open>
  C1, on the code. The claim is that the Fixed-Address Mapper exits with 0 only if both the
  single-value check and the sweep pass. Here is a run in which \<^verbatim>\<open>/dev/mem\<close> is not
  available, the simulation file is mapped, and somebody zeroes word 0 between the store of
  \<open>0xDEADBEEFCAFEBABE\<close> and its read-back: the read-back returns 0, the program prints the
  FAIL line of the single-value check, the four sweep values read back as written, and the
  exit code is 0. In general (\<open>fixed_addr_exit_code_from_sweep\<close>) the exit code of a run
  that reaches the mapped state is 0 exactly when the four sweep values read back as
  written; the read-back of the single-value check does not enter it.
\<close>

theorem fixed_addr_exit_zero_after_failed_readback:
  "loads (trace (snd (fixed_addr_main glitch_env 0 fresh_world))) =
     [(0, 0), (0, 0), (0, 0xDEADBEEF00000000), (1, 0xDEADBEEF00000001),
      (2, 0xDEADBEEF00000002), (3, 0xDEADBEEF00000003)]
   \<and> Printf ''[shm_rw_fixed_addr] FAIL: Read back does not match written value\<newline>'' []
        \<in> set (trace (snd (fixed_addr_main glitch_env 0 fresh_world)))
   \<and> Printf ''[shm_rw_fixed_addr] PASS: All test locations match\<newline>'' []
        \<in> set (trace (snd (fixed_addr_main glitch_env 0 fresh_world)))
   \<and> fst (fixed_addr_main glitch_env 0 fresh_world) = 0"
proof -
  have ow: "other_writer glitch_env = (\<lambda>k m. if k = 2 then m(0 := 0) else m)"
    by (simp add: glitch_env_def calm_env_def)
  have w0: "clock fresh_world = 0" "mem fresh_world = (\<lambda>i. 0)" "trace fresh_world = []"
    by (simp_all add: fresh_world_def)
  have p: "test_pattern 0 = 0xDEADBEEF00000000" "test_pattern 1 = 0xDEADBEEF00000001"
    "test_pattern 2 = 0xDEADBEEF00000002" "test_pattern 3 = 0xDEADBEEF00000003"
    "test_pattern (Suc 0) = 0xDEADBEEF00000001"
    by (simp_all add: test_pattern_def)
  let ?w = "fixed_addr_setup_world glitch_env fresh_world"
  let ?S = "fixed_addr_at_sweep glitch_env (fixed_addr_ptr glitch_env) ?w"
  have rb: "fixed_addr_readback glitch_env ?w = 0" "fixed_addr_orig glitch_env ?w = 0"
    by (simp_all add: fixed_addr_readback_def fixed_addr_orig_def fixed_addr_setup_world_fields ow w0)
  have cS: "clock ?S = 3"
    by (simp add: fixed_addr_at_sweep_simps fixed_addr_setup_world_fields w0)
  have mS: "mem ?S = (\<lambda>i. 0)"
    by (simp add: fixed_addr_at_sweep_simps fixed_addr_setup_world_fields w0 ow fun_eq_iff)
  define t0 where "t0 = sweep_iter glitch_env 0 (1, ?S)"
  define t1 where "t1 = sweep_iter glitch_env 1 t0"
  define t2 where "t2 = sweep_iter glitch_env 2 t1"
  define t3 where "t3 = sweep_iter glitch_env 3 t2"
  have s0: "sweep_seen glitch_env 0 ?S = test_pattern 0" "clock (snd t0) = 5"
    "mem (snd t0) = (\<lambda>i. 0)(0 := test_pattern 0)"
    by (simp_all add: t0_def sweep_iter_fields sweep_seen_def cS mS ow)
  have s1: "sweep_seen glitch_env 1 (snd t0) = test_pattern 1" "clock (snd t1) = 7"
    "mem (snd t1) = (\<lambda>i. 0)(0 := test_pattern 0, 1 := test_pattern 1)"
    by (simp_all add: t1_def sweep_iter_fields sweep_seen_def s0 ow del: One_nat_def)
  have s2: "sweep_seen glitch_env 2 (snd t1) = test_pattern 2" "clock (snd t2) = 9"
    "mem (snd t2) = (\<lambda>i. 0)(0 := test_pattern 0, 1 := test_pattern 1, 2 := test_pattern 2)"
    by (simp_all add: t2_def sweep_iter_fields sweep_seen_def s1 ow del: One_nat_def)
  have s3: "sweep_seen glitch_env 3 (snd t2) = test_pattern 3"
    by (simp_all add: sweep_seen_def s2 ow)
  have f0: "fst t0 = 1" "trace (snd t0) = trace ?S @ sweep_events 0 (test_pattern 0)"
    by (simp_all add: t0_def sweep_iter_fields s0[unfolded t0_def] del: One_nat_def)
  have f1: "fst t1 = 1" "trace (snd t1) = trace (snd t0) @ sweep_events 1 (test_pattern 1)"
    by (simp_all add: t1_def sweep_iter_fields s1[unfolded t1_def] f0 del: One_nat_def)
  have f2: "fst t2 = 1" "trace (snd t2) = trace (snd t1) @ sweep_events 2 (test_pattern 2)"
    by (simp_all add: t2_def sweep_iter_fields s2[unfolded t2_def] f1 del: One_nat_def)
  have f3: "fst t3 = 1" "trace (snd t3) = trace (snd t2) @ sweep_events 3 (test_pattern 3)"
    by (simp_all add: t3_def sweep_iter_fields s3 f2 del: One_nat_def)
  have flag: "fst t3 = 1" by (rule f3)
  have "fs (snd t3) = fs ?w"
    by (simp add: t3_def t2_def t1_def t0_def sweep_iter_fields fixed_addr_at_sweep_simps)
  then have there: "sim_file \<in> fs (snd t3)"
    using reaches_mapped_calm(3,4) by (simp add: fixed_addr_setup_world_fields reaches_mapped_def)
  have tr3: "trace (snd t3) = trace ?S @ sweep_events 0 (test_pattern 0) @ sweep_events 1 (test_pattern 1)
      @ sweep_events 2 (test_pattern 2) @ sweep_events 3 (test_pattern 3)"
    by (simp add: f0 f1 f2 f3)
  have sw: "sweep glitch_env 0 1 ?S = t3"
    by (simp add: sweep_unroll t3_def t2_def t1_def t0_def)
  have m: "fixed_addr_main glitch_env 0 fresh_world =
      fixed_addr_finish glitch_env (fixed_addr_fd glitch_env) (fixed_addr_ptr glitch_env) 0 (fst t3) (snd t3)"
    by (simp add: fixed_addr_main_mapped[OF reaches_mapped_calm(3)] fixed_addr_mapped_phases sw rb)
  have code: "fst (fixed_addr_main glitch_env 0 fresh_world) = 0"
    by (simp add: m fixed_addr_finish_simps flag)
  have tr: "trace (snd (fixed_addr_main glitch_env 0 fresh_world)) =
      fixed_addr_setup_events glitch_env @
      [Printf fa_mapped [ALong FIXED_PHYS_ADDR, APtr (fixed_addr_ptr glitch_env)],
       Printf fa_simple [],
       Fence, Load 0 0,
       Printf fa_original [ALong FIXED_PHYS_ADDR, AHex 0],
       Printf fa_writing [AHex TEST_VALUE],
       Fence, Store 0 TEST_VALUE, Fence, Fence, Load 0 0,
       Printf fa_readback [AHex 0],
       Printf fa_fail1 [],
       Printf fa_multi []] @
      sweep_events 0 (test_pattern 0) @ sweep_events 1 (test_pattern 1)
      @ sweep_events 2 (test_pattern 2) @ sweep_events 3 (test_pattern 3) @
      [Printf fa_passall [], Printf fa_restoring [], Fence, Store 0 0, Fence,
       Munmap (fixed_addr_ptr glitch_env) MAP_SIZE, Close (fixed_addr_fd glitch_env), Access sim_file,
       Unlink sim_file, Printf fa_done []]"
    by (simp add: m fixed_addr_finish_simps flag tr3 fixed_addr_at_sweep_simps rb there
        fixed_addr_setup_world_fields(1) w0 TEST_VALUE_def)
  have "loads (trace (snd (fixed_addr_main glitch_env 0 fresh_world))) =
     [(0, 0), (0, 0), (0, 0xDEADBEEF00000000), (1, 0xDEADBEEF00000001),
      (2, 0xDEADBEEF00000002), (3, 0xDEADBEEF00000003)]"
    by (simp add: tr proj_simps fixed_addr_setup_events_proj sweep_events_proj p)
  moreover have "Printf fa_fail1 [] \<in> set (trace (snd (fixed_addr_main glitch_env 0 fresh_world)))"
    "Printf fa_passall [] \<in> set (trace (snd (fixed_addr_main glitch_env 0 fresh_world)))"
    by (simp_all add: tr)
  ultimately show ?thesis
    using code unfolding fa_fail1_def fa_passall_def by simp
qed

text \<open>
  C2. In a run of the Region Mapper whose setup succeeds, the stores are exactly
  \<open>0xDEADBEEF00000000 | i\<close> at index \<open>i\<close> for the 128 word indices of the 1024-byte region, in
  that order; the exit code is 0 exactly when the 128 words read back are these same values;
  a value read at index 5 other than \<open>0xDEADBEEF00000005\<close> is reported as a mismatch against
  that expected value; when every word read matches, the last line printed is the PASS line
  citing 1024 bytes and the exit code is 0; and when nobody else writes to the window, every
  word does match.
\<close>

theorem region_mapper_round_trip:
  assumes "0 \<le> open_ret e SHARE_FILE" and "0 \<le> ftruncate_ret e"
    and "mmap_ret e SHARE_FILE \<noteq> MAP_FAILED" and "trace w = []"
  shows "stores (trace (snd (shm_rw_main e w))) =
           map (\<lambda>i. (i, 0xDEADBEEF00000000 OR of_nat i)) [0..<SHARE_SIZE div 8]
       \<and> (fst (shm_rw_main e w) = 0 \<longleftrightarrow>
            loads (trace (snd (shm_rw_main e w))) =
              map (\<lambda>i. (i, 0xDEADBEEF00000000 OR of_nat i)) [0..<SHARE_SIZE div 8])
       \<and> ((5, v) \<in> set (loads (trace (snd (shm_rw_main e w)))) \<and> v \<noteq> 0xDEADBEEF00000005 \<longrightarrow>
            Printf ''[shm_rw_syscall] Mismatch at index %zu: expected 0x%016llX, got 0x%016llX\<newline>''
              [ASize 5, AHex 0xDEADBEEF00000005, AHex v] \<in> set (trace (snd (shm_rw_main e w))))
       \<and> ((\<forall>(i, v) \<in> set (loads (trace (snd (shm_rw_main e w)))). v = 0xDEADBEEF00000000 OR of_nat i) \<longrightarrow>
            fst (shm_rw_main e w) = 0 \<and>
            last (printed (trace (snd (shm_rw_main e w)))) =
              Printf ''[shm_rw_syscall] PASS: all %d bytes match\<newline>'' [AInt 1024])
       \<and> ((\<forall>k. other_writer e k = (\<lambda>m. m)) \<longrightarrow> fst (shm_rw_main e w) = 0)"
proof -
  have p5: "test_pattern 5 = 0xDEADBEEF00000005" by (simp add: test_pattern_def)
  have tp: "(\<lambda>i. (i, 0xDEADBEEF00000000 OR of_nat i)) = (\<lambda>i. (i, test_pattern i))"
    by (simp add: test_pattern_def fun_eq_iff)
  have q: "(\<forall>k. other_writer e k = (\<lambda>m. m)) \<longrightarrow> fst (shm_rw_main e w) = 0"
    using shm_rw_main_quiet[OF assms(1-3)] by blast
  from assms(1-3) show ?thesis
  proof (cases rule: shm_rw_main_run[of e w])
    case pass
    have ld: "loads (trace (snd (shm_rw_main e w))) = map (\<lambda>i. (i, test_pattern i)) [0..<128]"
      by (simp add: pass assms(4) proj_simps shm_rw_prologue_proj shm_rw_cleanup_proj)
    have "(5, v) \<in> set (loads (trace (snd (shm_rw_main e w)))) \<Longrightarrow> v = 0xDEADBEEF00000005"
      unfolding ld using p5 by auto
    moreover have "stores (trace (snd (shm_rw_main e w))) = map (\<lambda>i. (i, test_pattern i)) [0..<128]"
      by (simp add: pass assms(4) proj_simps shm_rw_prologue_proj shm_rw_cleanup_proj)
    moreover have "last (printed (trace (snd (shm_rw_main e w)))) =
              Printf ''[shm_rw_syscall] PASS: all %d bytes match\<newline>'' [AInt 1024]"
      by (simp add: pass assms(4) proj_simps shm_rw_prologue_proj shm_rw_cleanup_proj)
    ultimately show ?thesis
      using q ld pass(1) unfolding tp nwords by blast
  next
    case (fail k v')
    have ld: "loads (trace (snd (shm_rw_main e w))) = map (\<lambda>i. (i, test_pattern i)) [0..<k] @ [(k, v')]"
      by (simp add: fail assms(4) proj_simps shm_rw_prologue_proj shm_rw_cleanup_proj)
    have ne: "loads (trace (snd (shm_rw_main e w))) \<noteq> map (\<lambda>i. (i, test_pattern i)) [0..<128]"
    proof
      assume eq: "loads (trace (snd (shm_rw_main e w))) = map (\<lambda>i. (i, test_pattern i)) [0..<128]"
      have "(k, v') \<in> set (loads (trace (snd (shm_rw_main e w))))" by (simp add: ld)
      then have "v' = test_pattern k" unfolding eq by auto
      with fail(2) show False by simp
    qed
    have st: "stores (trace (snd (shm_rw_main e w))) = map (\<lambda>i. (i, test_pattern i)) [0..<128]"
      by (simp add: fail assms(4) proj_simps shm_rw_prologue_proj shm_rw_cleanup_proj)
    have five: "Printf ''[shm_rw_syscall] Mismatch at index %zu: expected 0x%016llX, got 0x%016llX\<newline>''
              [ASize 5, AHex 0xDEADBEEF00000005, AHex v] \<in> set (trace (snd (shm_rw_main e w)))"
      if a: "(5, v) \<in> set (loads (trace (snd (shm_rw_main e w))))" "v \<noteq> 0xDEADBEEF00000005"
    proof -
      from a(1) have "(5 < k \<and> v = test_pattern 5) \<or> (k = 5 \<and> v = v')"
        unfolding ld by auto
      with a(2) p5 have "k = 5" "v = v'" by auto
      then show ?thesis by (simp add: fail(4) p5)
    qed
    have nall: "\<not> (\<forall>(i, v) \<in> set (loads (trace (snd (shm_rw_main e w)))). v = 0xDEADBEEF00000000 OR of_nat i)"
      using fail(2) by (simp add: ld test_pattern_def)
    show ?thesis
      using st ne five nall q fail(3) unfolding tp nwords by auto
  qed
qed

theorem region_mapper_round_trip_witness:
  "0 \<le> open_ret calm_env SHARE_FILE \<and> 0 \<le> ftruncate_ret calm_env
   \<and> mmap_ret calm_env SHARE_FILE \<noteq> MAP_FAILED \<and> trace fresh_world = []
   \<and> (\<forall>k. other_writer calm_env k = (\<lambda>m. m))
   \<and> stores (trace (snd (shm_rw_main calm_env fresh_world))) =
        map (\<lambda>i. (i, 0xDEADBEEF00000000 OR of_nat i)) [0..<SHARE_SIZE div 8]
   \<and> loads (trace (snd (shm_rw_main calm_env fresh_world))) =
        map (\<lambda>i. (i, 0xDEADBEEF00000000 OR of_nat i)) [0..<SHARE_SIZE div 8]
   \<and> fst (shm_rw_main calm_env fresh_world) = 0
   \<and> last (printed (trace (snd (shm_rw_main calm_env fresh_world)))) =
        Printf ''[shm_rw_syscall] PASS: all %d bytes match\<newline>'' [AInt 1024]"
proof -
  have h: "0 \<le> open_ret calm_env SHARE_FILE" "0 \<le> ftruncate_ret calm_env"
    "mmap_ret calm_env SHARE_FILE \<noteq> MAP_FAILED" "trace fresh_world = []"
    by (simp_all add: calm_env_def fresh_world_def SHARE_FILE_def MAP_FAILED_def)
  have q: "\<forall>k. other_writer calm_env k = (\<lambda>m. m)"
    by (simp add: calm_env_def)
  note t = region_mapper_round_trip [OF h]
  have z: "fst (shm_rw_main calm_env fresh_world) = 0"
    using t q by blast
  have ld: "loads (trace (snd (shm_rw_main calm_env fresh_world))) =
        map (\<lambda>i. (i, 0xDEADBEEF00000000 OR of_nat i)) [0..<SHARE_SIZE div 8]"
    using t z by blast
  have "\<forall>(i, v) \<in> set (loads (trace (snd (shm_rw_main calm_env fresh_world)))).
          v = 0xDEADBEEF00000000 OR of_nat i"
    unfolding ld by auto
  then have "last (printed (trace (snd (shm_rw_main calm_env fresh_world)))) =
        Printf ''[shm_rw_syscall] PASS: all %d bytes match\<newline>'' [AInt 1024]"
    using t by blast
  with h q z ld t show ?thesis by blast
qed

text \<open>
  C3. In a run of the Region Mapper whose setup succeeds, the stores go through the indices
  0..127 in ascending order and the loads through an initial segment of the same order. If
  some load returns a value other than the pattern, that load is the last one (the loop
  stops at the first mismatch), every load before it matched, the last two lines printed
  are the mismatch line with its index, the expected and the actual value, and the FAIL
  line, and the exit code is 1. In particular, when the only outside write to the window
  falls between the last store and the first load and leaves a word \<open>j\<close> of the region
  different from the pattern, the exit code is not 0 and the report names the first
  corrupted index, which is at most \<open>j\<close>, with the value found there.
\<close>

theorem region_mapper_first_mismatch:
  assumes "0 \<le> open_ret e SHARE_FILE" and "0 \<le> ftruncate_ret e"
    and "mmap_ret e SHARE_FILE \<noteq> MAP_FAILED" and "trace w = []"
  shows "map fst (stores (trace (snd (shm_rw_main e w)))) = [0..<SHARE_SIZE div 8]
       \<and> (\<exists>n \<le> SHARE_SIZE div 8. map fst (loads (trace (snd (shm_rw_main e w)))) = [0..<n])
       \<and> ((\<exists>i v. (i, v) \<in> set (loads (trace (snd (shm_rw_main e w)))) \<and> v \<noteq> test_pattern i) \<longrightarrow>
            (\<exists>k v. k < SHARE_SIZE div 8 \<and> v \<noteq> test_pattern k \<and>
               loads (trace (snd (shm_rw_main e w))) = map (\<lambda>i. (i, test_pattern i)) [0..<k] @ [(k, v)] \<and>
               (\<exists>pre. printed (trace (snd (shm_rw_main e w))) = pre @
                  [Printf ''[shm_rw_syscall] Mismatch at index %zu: expected 0x%016llX, got 0x%016llX\<newline>''
                     [ASize k, AHex (test_pattern k), AHex v],
                   Printf ''[shm_rw_syscall] FAIL: data mismatch\<newline>'' []]) \<and>
               fst (shm_rw_main e w) = 1))
       \<and> ((\<forall>k. k \<noteq> clock w + 129 \<longrightarrow> other_writer e k = (\<lambda>m. m)) \<longrightarrow>
            (\<forall>j < SHARE_SIZE div 8.
               other_writer e (clock w + 129) (\<lambda>i. if i < 128 then test_pattern i else mem w i) j \<noteq> test_pattern j \<longrightarrow>
               fst (shm_rw_main e w) \<noteq> 0 \<and>
               (\<exists>k \<le> j.
                  (\<forall>i < k. other_writer e (clock w + 129) (\<lambda>i. if i < 128 then test_pattern i else mem w i) i = test_pattern i) \<and>
                  other_writer e (clock w + 129) (\<lambda>i. if i < 128 then test_pattern i else mem w i) k \<noteq> test_pattern k \<and>
                  loads (trace (snd (shm_rw_main e w))) = map (\<lambda>i. (i, test_pattern i)) [0..<k] @
                    [(k, other_writer e (clock w + 129) (\<lambda>i. if i < 128 then test_pattern i else mem w i) k)] \<and>
                  Printf ''[shm_rw_syscall] Mismatch at index %zu: expected 0x%016llX, got 0x%016llX\<newline>''
                     [ASize k, AHex (test_pattern k),
                      AHex (other_writer e (clock w + 129) (\<lambda>i. if i < 128 then test_pattern i else mem w i) k)]
                    \<in> set (trace (snd (shm_rw_main e w))))))"
proof -
  define tr where "tr = trace (snd (shm_rw_main e w))"
  define m' where "m' = other_writer e (clock w + 129) (\<lambda>i. if i < 128 then test_pattern i else mem w i)"
  have A: "map fst (stores tr) = [0..<128]
       \<and> (\<exists>n \<le> 128. map fst (loads tr) = [0..<n])
       \<and> ((\<exists>i v. (i, v) \<in> set (loads tr) \<and> v \<noteq> test_pattern i) \<longrightarrow>
            (\<exists>k v. k < 128 \<and> v \<noteq> test_pattern k \<and>
               loads tr = map (\<lambda>i. (i, test_pattern i)) [0..<k] @ [(k, v)] \<and>
               (\<exists>pre. printed tr = pre @
                  [Printf ''[shm_rw_syscall] Mismatch at index %zu: expected 0x%016llX, got 0x%016llX\<newline>''
                     [ASize k, AHex (test_pattern k), AHex v],
                   Printf ''[shm_rw_syscall] FAIL: data mismatch\<newline>'' []]) \<and>
               fst (shm_rw_main e w) = 1))"
    using assms(1-3)
  proof (cases rule: shm_rw_main_run[of e w])
    case pass
    have ld: "loads tr = map (\<lambda>i. (i, test_pattern i)) [0..<128]"
      by (simp add: tr_def pass assms(4) proj_simps shm_rw_prologue_proj shm_rw_cleanup_proj)
    have st: "stores tr = map (\<lambda>i. (i, test_pattern i)) [0..<128]"
      by (simp add: tr_def pass assms(4) proj_simps shm_rw_prologue_proj shm_rw_cleanup_proj)
    have "map fst (loads tr) = [0..<128]" unfolding ld by (simp add: comp_def)
    moreover have "map fst (stores tr) = [0..<128]" unfolding st by (simp add: comp_def)
    moreover have "\<not> (\<exists>i v. (i, v) \<in> set (loads tr) \<and> v \<noteq> test_pattern i)"
      unfolding ld by auto
    ultimately show ?thesis by auto
  next
    case (fail k v)
    have ld: "loads tr = map (\<lambda>i. (i, test_pattern i)) [0..<k] @ [(k, v)]"
      by (simp add: tr_def fail assms(4) proj_simps shm_rw_prologue_proj shm_rw_cleanup_proj)
    have st: "stores tr = map (\<lambda>i. (i, test_pattern i)) [0..<128]"
      by (simp add: tr_def fail assms(4) proj_simps shm_rw_prologue_proj shm_rw_cleanup_proj)
    have pr: "printed tr = printed (shm_rw_prologue e) @
                  [Printf ''[shm_rw_syscall] Mismatch at index %zu: expected 0x%016llX, got 0x%016llX\<newline>''
                     [ASize k, AHex (test_pattern k), AHex v],
                   Printf ''[shm_rw_syscall] FAIL: data mismatch\<newline>'' []]"
      by (simp add: tr_def fail assms(4) proj_simps shm_rw_cleanup_proj)
    have "map fst (loads tr) = [0..<Suc k]" unfolding ld by (simp add: comp_def)
    moreover have "Suc k \<le> 128" using fail(1) by simp
    moreover have "map fst (stores tr) = [0..<128]" unfolding st by (simp add: comp_def)
    ultimately show ?thesis
      using fail(1,2,3) ld pr by blast
  qed
  have B: "\<forall>j < 128. m' j \<noteq> test_pattern j \<longrightarrow>
               fst (shm_rw_main e w) \<noteq> 0 \<and>
               (\<exists>k \<le> j. (\<forall>i < k. m' i = test_pattern i) \<and> m' k \<noteq> test_pattern k \<and>
                  loads tr = map (\<lambda>i. (i, test_pattern i)) [0..<k] @ [(k, m' k)] \<and>
                  Printf ''[shm_rw_syscall] Mismatch at index %zu: expected 0x%016llX, got 0x%016llX\<newline>''
                     [ASize k, AHex (test_pattern k), AHex (m' k)] \<in> set tr)"
    if q: "\<forall>k. k \<noteq> clock w + 129 \<longrightarrow> other_writer e k = (\<lambda>m. m)"
  proof (intro allI impI)
    fix j assume j: "j < 128" "m' j \<noteq> test_pattern j"
    from shm_rw_main_view[OF assms(1-3) q, folded m'_def tr_def] j
    obtain k where k: "k < 128" "m' k \<noteq> test_pattern k" "\<forall>j<k. m' j = test_pattern j"
      "fst (shm_rw_main e w) = 1"
      "tr = trace w @ shm_rw_prologue e @
              map (\<lambda>j. Load j (test_pattern j)) [0..<k] @
              [Load k (m' k),
               Printf ''[shm_rw_syscall] Mismatch at index %zu: expected 0x%016llX, got 0x%016llX\<newline>''
                 [ASize k, AHex (test_pattern k), AHex (m' k)],
               Printf ''[shm_rw_syscall] FAIL: data mismatch\<newline>'' []] @ shm_rw_cleanup e"
      by auto
    have "k \<le> j"
    proof (rule ccontr)
      assume "\<not> k \<le> j" then have "j < k" by simp
      with k(3) j(2) show False by simp
    qed
    moreover have "loads tr = map (\<lambda>i. (i, test_pattern i)) [0..<k] @ [(k, m' k)]"
      by (simp add: k(5) assms(4) proj_simps shm_rw_prologue_proj shm_rw_cleanup_proj)
    moreover have "Printf ''[shm_rw_syscall] Mismatch at index %zu: expected 0x%016llX, got 0x%016llX\<newline>''
                     [ASize k, AHex (test_pattern k), AHex (m' k)] \<in> set tr"
      by (simp add: k(5))
    ultimately show "fst (shm_rw_main e w) \<noteq> 0 \<and>
               (\<exists>k \<le> j. (\<forall>i < k. m' i = test_pattern i) \<and> m' k \<noteq> test_pattern k \<and>
                  loads tr = map (\<lambda>i. (i, test_pattern i)) [0..<k] @ [(k, m' k)] \<and>
                  Printf ''[shm_rw_syscall] Mismatch at index %zu: expected 0x%016llX, got 0x%016llX\<newline>''
                     [ASize k, AHex (test_pattern k), AHex (m' k)] \<in> set tr)"
      using k(2,3,4) by (intro conjI exI[of _ k]) simp_all
  qed
  from A B show ?thesis
    unfolding tr_def m'_def nwords by simp
qed

theorem region_mapper_first_mismatch_witness:
  "0 \<le> open_ret tamper_env SHARE_FILE \<and> 0 \<le> ftruncate_ret tamper_env
   \<and> mmap_ret tamper_env SHARE_FILE \<noteq> MAP_FAILED \<and> trace fresh_world = []
   \<and> other_writer tamper_env = (\<lambda>k m. if k = clock fresh_world + 129 then m(5 := 0) else m)
   \<and> map fst (stores (trace (snd (shm_rw_main tamper_env fresh_world)))) = [0..<SHARE_SIZE div 8]
   \<and> loads (trace (snd (shm_rw_main tamper_env fresh_world))) =
        [(0, 0xDEADBEEF00000000), (1, 0xDEADBEEF00000001), (2, 0xDEADBEEF00000002),
         (3, 0xDEADBEEF00000003), (4, 0xDEADBEEF00000004), (5, 0)]
   \<and> Printf ''[shm_rw_syscall] Mismatch at index %zu: expected 0x%016llX, got 0x%016llX\<newline>''
        [ASize 5, AHex 0xDEADBEEF00000005, AHex 0]
        \<in> set (trace (snd (shm_rw_main tamper_env fresh_world)))
   \<and> fst (shm_rw_main tamper_env fresh_world) = 1"
proof -
  have h: "0 \<le> open_ret tamper_env SHARE_FILE" "0 \<le> ftruncate_ret tamper_env"
    "mmap_ret tamper_env SHARE_FILE \<noteq> MAP_FAILED" "trace fresh_world = []"
    by (simp_all add: tamper_env_def calm_env_def fresh_world_def SHARE_FILE_def MAP_FAILED_def)
  have ow: "other_writer tamper_env = (\<lambda>k m. if k = clock fresh_world + 129 then m(5 := 0) else m)"
    by (simp add: tamper_env_def calm_env_def fresh_world_def)
  have q: "\<forall>k. k \<noteq> clock fresh_world + 129 \<longrightarrow> other_writer tamper_env k = (\<lambda>m. m)"
    by (simp add: ow)
  define m' where "m' = other_writer tamper_env (clock fresh_world + 129)
                          (\<lambda>i. if i < 128 then test_pattern i else mem fresh_world i)"
  have m5: "m' 5 = 0" and mo: "\<And>i. i < 5 \<Longrightarrow> m' i = test_pattern i"
    by (simp_all add: m'_def ow)
  have p: "test_pattern 0 = 0xDEADBEEF00000000" "test_pattern 1 = 0xDEADBEEF00000001"
    "test_pattern 2 = 0xDEADBEEF00000002" "test_pattern 3 = 0xDEADBEEF00000003"
    "test_pattern 4 = 0xDEADBEEF00000004" "test_pattern 5 = 0xDEADBEEF00000005"
    by (simp_all add: test_pattern_def)
  note t = region_mapper_first_mismatch [OF h, folded m'_def]
  have st: "map fst (stores (trace (snd (shm_rw_main tamper_env fresh_world)))) = [0..<SHARE_SIZE div 8]"
    using t by blast
  have "(5::nat) < SHARE_SIZE div 8" "m' 5 \<noteq> test_pattern 5"
    by (simp_all add: SHARE_SIZE_def m5 p)
  with t q obtain k where k: "k \<le> 5" "\<forall>i<k. m' i = test_pattern i" "m' k \<noteq> test_pattern k"
    "loads (trace (snd (shm_rw_main tamper_env fresh_world))) =
       map (\<lambda>i. (i, test_pattern i)) [0..<k] @ [(k, m' k)]"
    "Printf ''[shm_rw_syscall] Mismatch at index %zu: expected 0x%016llX, got 0x%016llX\<newline>''
        [ASize k, AHex (test_pattern k), AHex (m' k)]
        \<in> set (trace (snd (shm_rw_main tamper_env fresh_world)))"
    and one: "fst (shm_rw_main tamper_env fresh_world) \<noteq> 0"
    by blast
  have "k = 5"
  proof (rule ccontr)
    assume "k \<noteq> 5" with k(1) have "k < 5" by simp
    with mo k(3) show False by simp
  qed
  have upt5: "[0..<5] = [0, 1, 2, 3, 4::nat]" by (simp add: upt_rec)
  have ld: "loads (trace (snd (shm_rw_main tamper_env fresh_world))) =
        [(0, 0xDEADBEEF00000000), (1, 0xDEADBEEF00000001), (2, 0xDEADBEEF00000002),
         (3, 0xDEADBEEF00000003), (4, 0xDEADBEEF00000004), (5, 0)]"
    using k(4) unfolding \<open>k = 5\<close> m5 upt5 by (simp add: p p(2)[simplified])
  have "\<exists>i v. (i, v) \<in> set (loads (trace (snd (shm_rw_main tamper_env fresh_world)))) \<and> v \<noteq> test_pattern i"
    unfolding ld by (intro exI[of _ 5] exI[of _ 0]) (simp add: p)
  with t have "fst (shm_rw_main tamper_env fresh_world) = 1" by blast
  moreover have "Printf ''[shm_rw_syscall] Mismatch at index %zu: expected 0x%016llX, got 0x%016llX\<newline>''
        [ASize 5, AHex 0xDEADBEEF00000005, AHex 0]
        \<in> set (trace (snd (shm_rw_main tamper_env fresh_world)))"
    using k(5) unfolding \<open>k = 5\<close> m5 p .
  ultimately show ?thesis using h ow st ld by simp
qed

text \<open>
  C4. Fixed-Address Mapper: when \<^verbatim>\<open>/dev/mem\<close> cannot be opened the next system call is the
  \<^verbatim>\<open>open\<close> of the simulation file; when it opens but its \<^verbatim>\<open>mmap\<close> fails the program closes
  the device descriptor and then opens the simulation file; if the simulation path then
  succeeds the test runs to its last line; if on the simulation path \<^verbatim>\<open>open\<close>,
  \<^verbatim>\<open>ftruncate\<close> or \<^verbatim>\<open>mmap\<close> fails, the program exits with code 1 without touching the
  window. Region Mapper: when \<^verbatim>\<open>mmap\<close> fails the program closes, unlinks and exits with
  code 1 without touching the window.
\<close>

theorem setup_failures_recoverable_and_fatal:
  assumes "trace w = []"
  shows "(open_ret e ''/dev/mem'' < 0 \<longrightarrow>
            take 2 (syscalls (trace (snd (fixed_addr_main e junk w)))) =
              [Open ''/dev/mem'', Open ''/tmp/fixed_addr_mem''])
       \<and> (0 \<le> open_ret e ''/dev/mem'' \<and> mmap_ret e ''/dev/mem'' = MAP_FAILED \<longrightarrow>
            take 4 (syscalls (trace (snd (fixed_addr_main e junk w)))) =
              [Open ''/dev/mem'',
               Mmap (MAP_SIZE + (FIXED_PHYS_ADDR - (FIXED_PHYS_ADDR AND NOT (page_size e - 1))))
                 (open_ret e ''/dev/mem'') (FIXED_PHYS_ADDR AND NOT (page_size e - 1)),
               Close (open_ret e ''/dev/mem''),
               Open ''/tmp/fixed_addr_mem''])
       \<and> ((open_ret e ''/dev/mem'' < 0 \<or> mmap_ret e ''/dev/mem'' = MAP_FAILED) \<and>
           0 \<le> open_ret e ''/tmp/fixed_addr_mem'' \<and> 0 \<le> ftruncate_ret e \<and>
           mmap_ret e ''/tmp/fixed_addr_mem'' \<noteq> MAP_FAILED \<longrightarrow>
            Printf ''[shm_rw_fixed_addr] Running simple test...\<newline>'' []
              \<in> set (trace (snd (fixed_addr_main e junk w))) \<and>
            loads (trace (snd (fixed_addr_main e junk w))) \<noteq> [] \<and>
            last (trace (snd (fixed_addr_main e junk w))) =
              Printf ''[shm_rw_fixed_addr] Test completed successfully\<newline>'' [])
       \<and> ((open_ret e ''/dev/mem'' < 0 \<or> mmap_ret e ''/dev/mem'' = MAP_FAILED) \<and>
           (open_ret e ''/tmp/fixed_addr_mem'' < 0 \<or> ftruncate_ret e < 0 \<or>
            mmap_ret e ''/tmp/fixed_addr_mem'' = MAP_FAILED) \<longrightarrow>
            fst (fixed_addr_main e junk w) = 1 \<and>
            stores (trace (snd (fixed_addr_main e junk w))) = [] \<and>
            loads (trace (snd (fixed_addr_main e junk w))) = [])
       \<and> (0 \<le> open_ret e SHARE_FILE \<and> 0 \<le> ftruncate_ret e \<and> mmap_ret e SHARE_FILE = MAP_FAILED \<longrightarrow>
            fst (shm_rw_main e w) = 1 \<and>
            stores (trace (snd (shm_rw_main e w))) = [] \<and>
            loads (trace (snd (shm_rw_main e w))) = [] \<and>
            syscalls (trace (snd (shm_rw_main e w))) =
              [Open SHARE_FILE, Ftruncate (open_ret e SHARE_FILE) 1024,
               Mmap 1024 (open_ret e SHARE_FILE) 0, Close (open_ret e SHARE_FILE), Unlink SHARE_FILE])"
proof -
  let ?tr = "trace (snd (fixed_addr_main e junk w))"
  obtain rest where pre: "?tr = fixed_addr_setup_events e @ rest"
    using fixed_addr_main_trace_prefix[of e junk w] assms by auto
  have a: "take 2 (syscalls ?tr) = [Open dev_mem, Open sim_file]" if "open_ret e dev_mem < 0"
    using that by (simp add: pre proj_simps fixed_addr_setup_events_proj takes_fallback_def)
  have b: "take 4 (syscalls ?tr) =
              [Open dev_mem,
               Mmap (MAP_SIZE + (FIXED_PHYS_ADDR - (FIXED_PHYS_ADDR AND NOT (page_size e - 1))))
                 (open_ret e dev_mem) (FIXED_PHYS_ADDR AND NOT (page_size e - 1)),
               Close (open_ret e dev_mem), Open sim_file]"
    if "0 \<le> open_ret e dev_mem \<and> mmap_ret e dev_mem = MAP_FAILED"
    using that by (simp add: pre proj_simps fixed_addr_setup_events_proj takes_fallback_def)
  have c: "Printf fa_simple [] \<in> set ?tr \<and> loads ?tr \<noteq> [] \<and> last ?tr = Printf fa_done []"
    if "(open_ret e dev_mem < 0 \<or> mmap_ret e dev_mem = MAP_FAILED) \<and>
           0 \<le> open_ret e sim_file \<and> 0 \<le> ftruncate_ret e \<and> mmap_ret e sim_file \<noteq> MAP_FAILED"
  proof -
    have "reaches_mapped e"
      using that by (simp add: reaches_mapped_def takes_fallback_def fixed_addr_ptr_def)
    from fixed_addr_main_runs_test[OF this assms] show ?thesis by simp
  qed
  have d: "fst (fixed_addr_main e junk w) = 1 \<and> stores ?tr = [] \<and> loads ?tr = []"
    if "(open_ret e dev_mem < 0 \<or> mmap_ret e dev_mem = MAP_FAILED) \<and>
           (open_ret e sim_file < 0 \<or> ftruncate_ret e < 0 \<or> mmap_ret e sim_file = MAP_FAILED)"
  proof -
    have "takes_fallback e" using that by (simp add: takes_fallback_def)
    from fixed_addr_main_fatal[OF this, of junk w] that assms show ?thesis
      by (simp add: proj_simps)
  qed
  have r: "fst (shm_rw_main e w) = 1 \<and>
            stores (trace (snd (shm_rw_main e w))) = [] \<and>
            loads (trace (snd (shm_rw_main e w))) = [] \<and>
            syscalls (trace (snd (shm_rw_main e w))) =
              [Open SHARE_FILE, Ftruncate (open_ret e SHARE_FILE) 1024,
               Mmap 1024 (open_ret e SHARE_FILE) 0, Close (open_ret e SHARE_FILE), Unlink SHARE_FILE]"
    if "0 \<le> open_ret e SHARE_FILE \<and> 0 \<le> ftruncate_ret e \<and> mmap_ret e SHARE_FILE = MAP_FAILED"
    using that shm_rw_main_mmap_fails[of e w] assms by (simp add: proj_simps)
  from a b c d r show ?thesis
    unfolding dev_mem_def sim_file_def fa_simple_def fa_done_def by blast
qed

theorem setup_failures_recoverable_and_fatal_witness:
  "trace fresh_world = []
   \<and> open_ret no_mmap_env ''/dev/mem'' < 0
   \<and> mmap_ret no_mmap_env ''/tmp/fixed_addr_mem'' = MAP_FAILED
   \<and> take 2 (syscalls (trace (snd (fixed_addr_main no_mmap_env 0 fresh_world)))) =
       [Open ''/dev/mem'', Open ''/tmp/fixed_addr_mem'']
   \<and> fst (fixed_addr_main no_mmap_env 0 fresh_world) = 1
   \<and> loads (trace (snd (fixed_addr_main no_mmap_env 0 fresh_world))) = []
   \<and> 0 \<le> open_ret no_mmap_env SHARE_FILE \<and> 0 \<le> ftruncate_ret no_mmap_env
   \<and> mmap_ret no_mmap_env SHARE_FILE = MAP_FAILED
   \<and> fst (shm_rw_main no_mmap_env fresh_world) = 1
   \<and> 0 \<le> open_ret no_dev_mmap_env ''/dev/mem''
   \<and> mmap_ret no_dev_mmap_env ''/dev/mem'' = MAP_FAILED
   \<and> 0 \<le> open_ret no_dev_mmap_env ''/tmp/fixed_addr_mem'' \<and> 0 \<le> ftruncate_ret no_dev_mmap_env
   \<and> mmap_ret no_dev_mmap_env ''/tmp/fixed_addr_mem'' \<noteq> MAP_FAILED
   \<and> take 4 (syscalls (trace (snd (fixed_addr_main no_dev_mmap_env 0 fresh_world)))) =
       [Open ''/dev/mem'', Mmap 4096 3 0x80000000, Close 3, Open ''/tmp/fixed_addr_mem'']
   \<and> loads (trace (snd (fixed_addr_main no_dev_mmap_env 0 fresh_world))) \<noteq> []
   \<and> last (trace (snd (fixed_addr_main no_dev_mmap_env 0 fresh_world))) =
       Printf ''[shm_rw_fixed_addr] Test completed successfully\<newline>'' []"
proof -
  have h: "trace fresh_world = []" by (simp add: fresh_world_def)
  have a: "open_ret no_mmap_env ''/dev/mem'' < 0"
    "mmap_ret no_mmap_env ''/tmp/fixed_addr_mem'' = MAP_FAILED"
    "0 \<le> open_ret no_mmap_env SHARE_FILE" "0 \<le> ftruncate_ret no_mmap_env"
    "mmap_ret no_mmap_env SHARE_FILE = MAP_FAILED"
    by (simp_all add: no_mmap_env_def calm_env_def SHARE_FILE_def)
  have b: "0 \<le> open_ret no_dev_mmap_env ''/dev/mem''"
    "mmap_ret no_dev_mmap_env ''/dev/mem'' = MAP_FAILED"
    "0 \<le> open_ret no_dev_mmap_env ''/tmp/fixed_addr_mem''" "0 \<le> ftruncate_ret no_dev_mmap_env"
    "mmap_ret no_dev_mmap_env ''/tmp/fixed_addr_mem'' \<noteq> MAP_FAILED"
    "open_ret no_dev_mmap_env ''/dev/mem'' = 3"
    by (simp_all add: no_dev_mmap_env_def priv_env_def calm_env_def MAP_FAILED_def)
  have c: "page_size no_dev_mmap_env = 4096"
    by (simp add: no_dev_mmap_env_def priv_env_def calm_env_def)
  note t1 = setup_failures_recoverable_and_fatal [OF h, of no_mmap_env 0]
  note t2 = setup_failures_recoverable_and_fatal [OF h, of no_dev_mmap_env 0]
  show ?thesis
    using t1 t2 h a b by (simp add: c MAP_SIZE_def FIXED_PHYS_ADDR_def)
qed

text \<open>
  C5. In a run of the Fixed-Address Mapper that reaches the mapped state, the first access to
  the window is the load of word 0, before any store; the last store writes the value that
  load returned back to word 0; and at exit word 0 holds that value, whether the single-value
  check and the sweep passed or failed (nothing is assumed about what other writers do, so
  both can fail). When nobody wrote to the window before that first load, this is the content
  word 0 had before the run.
\<close>

theorem fixed_addr_restores_original:
  assumes "reaches_mapped e" and "trace w = []"
  shows "(\<exists>pre post. trace (snd (fixed_addr_main e junk w)) =
             pre @ Load 0 (other_writer e (clock w) (mem w) 0) # post
           \<and> stores pre = [] \<and> loads pre = [])
       \<and> last (stores (trace (snd (fixed_addr_main e junk w)))) = (0, other_writer e (clock w) (mem w) 0)
       \<and> mem (snd (fixed_addr_main e junk w)) 0 = other_writer e (clock w) (mem w) 0
       \<and> (other_writer e (clock w) = (\<lambda>m. m) \<longrightarrow> mem (snd (fixed_addr_main e junk w)) 0 = mem w 0)"
proof -
  let ?o = "other_writer e (clock w) (mem w) 0"
  from assms(1) obtain rv v0 v1 v2 v3 where r:
    "trace (snd (fixed_addr_main e junk w)) =
       trace w @ fixed_addr_setup_events e @
       fixed_addr_mapped_events (fixed_addr_fd e) (fixed_addr_ptr e) ?o rv v0 v1 v2 v3
         (takes_fallback e \<or> sim_file \<in> fs w)"
    by (rule fixed_addr_main_run)
  obtain post where p: "fixed_addr_mapped_events (fixed_addr_fd e) (fixed_addr_ptr e) ?o rv v0 v1 v2 v3
         (takes_fallback e \<or> sim_file \<in> fs w) =
       [Printf fa_mapped [ALong FIXED_PHYS_ADDR, APtr (fixed_addr_ptr e)], Printf fa_simple [], Fence]
       @ Load 0 ?o # post"
    by (simp add: fixed_addr_mapped_events_def)
  have "trace (snd (fixed_addr_main e junk w)) =
      (fixed_addr_setup_events e @
        [Printf fa_mapped [ALong FIXED_PHYS_ADDR, APtr (fixed_addr_ptr e)], Printf fa_simple [], Fence])
      @ Load 0 ?o # post"
    by (simp add: r p assms(2))
  moreover have "stores (fixed_addr_setup_events e @
        [Printf fa_mapped [ALong FIXED_PHYS_ADDR, APtr (fixed_addr_ptr e)], Printf fa_simple [], Fence]) = []"
    "loads (fixed_addr_setup_events e @
        [Printf fa_mapped [ALong FIXED_PHYS_ADDR, APtr (fixed_addr_ptr e)], Printf fa_simple [], Fence]) = []"
    by (simp_all add: proj_simps fixed_addr_setup_events_proj)
  ultimately have first: "\<exists>pre post. trace (snd (fixed_addr_main e junk w)) = pre @ Load 0 ?o # post
           \<and> stores pre = [] \<and> loads pre = []"
    by blast
  have lst: "last (stores (trace (snd (fixed_addr_main e junk w)))) = (0, ?o)"
    by (simp add: r assms(2) proj_simps fixed_addr_setup_events_proj fixed_addr_mapped_events_proj)
  have m0: "mem (snd (fixed_addr_main e junk w)) 0 = ?o"
    by (rule fixed_addr_main_mem0[OF assms(1)])
  have "other_writer e (clock w) = (\<lambda>m. m) \<longrightarrow> mem (snd (fixed_addr_main e junk w)) 0 = mem w 0"
    by (simp add: m0)
  with first lst m0 show ?thesis by blast
qed

theorem fixed_addr_restores_original_witness:
  "reaches_mapped glitch_env \<and> trace used_world = []
   \<and> other_writer glitch_env (clock used_world) = (\<lambda>m. m)
   \<and> mem used_world 0 = 0x1122334455667788
   \<and> last (stores (trace (snd (fixed_addr_main glitch_env 0 used_world)))) = (0, 0x1122334455667788)
   \<and> mem (snd (fixed_addr_main glitch_env 0 used_world)) 0 = 0x1122334455667788"
proof -
  have h: "reaches_mapped glitch_env" "trace used_world = []"
    by (simp_all add: reaches_mapped_calm used_world_def fresh_world_def)
  have v: "other_writer glitch_env (clock used_world) = (\<lambda>m. m)" "mem used_world 0 = 0x1122334455667788"
    "other_writer glitch_env (clock used_world) (mem used_world) 0 = 0x1122334455667788"
    by (simp_all add: glitch_env_def calm_env_def used_world_def fresh_world_def)
  show ?thesis
    using fixed_addr_restores_original [OF h, of 0] h v by simp
qed

text \<open>
  C6. The pattern \<open>i \<mapsto> 0xDEADBEEF00000000 | i\<close> takes different values at different
  indices of the tested range: the 128 word indices of the Region Mapper, which contain the
  four offsets 0..3 of the Fixed-Address Mapper's sweep. The low 32 bits of the tag are
  clear, so the low 32 bits of the pattern are the index itself (\<open>test_pattern_low\<close>).
\<close>

theorem test_pattern_injective:
  assumes "i < SHARE_SIZE div 8" and "j < SHARE_SIZE div 8" and "i \<noteq> j"
  shows "test_pattern i \<noteq> test_pattern j"
proof
  assume eq: "test_pattern i = test_pattern j"
  have "i < 2 ^ 32" "j < 2 ^ 32"
    using assms(1,2) by (simp_all add: SHARE_SIZE_def)
  then have "i = j"
    using eq by (rule test_pattern_inj)
  with assms(3) show False by simp
qed

theorem test_pattern_injective_witness:
  "(3::nat) < SHARE_SIZE div 8 \<and> (5::nat) < SHARE_SIZE div 8 \<and> (3::nat) \<noteq> 5
   \<and> test_pattern 3 \<noteq> test_pattern 5"
  using test_pattern_injective [of 3 5] by (simp add: SHARE_SIZE_def)

text \<open>
  C7, as the program has it. On every run of the Region Mapper in which \<^verbatim>\<open>open\<close> succeeds
  (a failing \<^verbatim>\<open>ftruncate\<close>, a failing \<^verbatim>\<open>mmap\<close>, a verification that passes and one that
  fails), the system calls end with \<^verbatim>\<open>close\<close> of the descriptor and \<^verbatim>\<open>unlink\<close> of
  \<^verbatim>\<open>/tmp/simbricks_shm_test\<close>, preceded by \<^verbatim>\<open>munmap\<close> exactly when the region was mapped,
  and \<^verbatim>\<open>unlink\<close> is the last thing the program does. The program does not look at what
  \<^verbatim>\<open>unlink\<close> returns: the backing file is off the disk when the process exits exactly
  when that call succeeds. The theorem after the witness is a run in which it fails.
\<close>

theorem region_mapper_cleanup:
  assumes "0 \<le> open_ret e SHARE_FILE" and "trace w = []"
  shows "syscalls (trace (snd (shm_rw_main e w))) =
           (if ftruncate_ret e < 0
            then [Open SHARE_FILE, Ftruncate (open_ret e SHARE_FILE) 1024,
                  Close (open_ret e SHARE_FILE), Unlink SHARE_FILE]
            else if mmap_ret e SHARE_FILE = MAP_FAILED
            then [Open SHARE_FILE, Ftruncate (open_ret e SHARE_FILE) 1024,
                  Mmap 1024 (open_ret e SHARE_FILE) 0,
                  Close (open_ret e SHARE_FILE), Unlink SHARE_FILE]
            else [Open SHARE_FILE, Ftruncate (open_ret e SHARE_FILE) 1024,
                  Mmap 1024 (open_ret e SHARE_FILE) 0,
                  Munmap (mmap_ret e SHARE_FILE) 1024,
                  Close (open_ret e SHARE_FILE), Unlink SHARE_FILE])
       \<and> last (trace (snd (shm_rw_main e w))) = Unlink SHARE_FILE
       \<and> SHARE_FILE = ''/tmp/simbricks_shm_test''
       \<and> (SHARE_FILE \<notin> fs (snd (shm_rw_main e w)) \<longleftrightarrow> unlink_ok e)"
proof -
  have fsq: "SHARE_FILE \<notin> fs (snd (shm_rw_main e w)) \<longleftrightarrow> unlink_ok e"
    by (simp add: shm_rw_main_fs[OF assms(1)])
  have sf: "SHARE_FILE = ''/tmp/simbricks_shm_test''" by (simp add: SHARE_FILE_def)
  consider "ftruncate_ret e < 0" | "0 \<le> ftruncate_ret e" "mmap_ret e SHARE_FILE = MAP_FAILED"
    | "0 \<le> ftruncate_ret e" "mmap_ret e SHARE_FILE \<noteq> MAP_FAILED" by linarith
  then have "syscalls (trace (snd (shm_rw_main e w))) =
           (if ftruncate_ret e < 0
            then [Open SHARE_FILE, Ftruncate (open_ret e SHARE_FILE) 1024,
                  Close (open_ret e SHARE_FILE), Unlink SHARE_FILE]
            else if mmap_ret e SHARE_FILE = MAP_FAILED
            then [Open SHARE_FILE, Ftruncate (open_ret e SHARE_FILE) 1024,
                  Mmap 1024 (open_ret e SHARE_FILE) 0,
                  Close (open_ret e SHARE_FILE), Unlink SHARE_FILE]
            else [Open SHARE_FILE, Ftruncate (open_ret e SHARE_FILE) 1024,
                  Mmap 1024 (open_ret e SHARE_FILE) 0,
                  Munmap (mmap_ret e SHARE_FILE) 1024,
                  Close (open_ret e SHARE_FILE), Unlink SHARE_FILE])
       \<and> last (trace (snd (shm_rw_main e w))) = Unlink SHARE_FILE"
  proof cases
    case 1
    then show ?thesis
      using assms by (simp add: shm_rw_main_def prim_defs Let_def SHARE_SIZE_def proj_simps)
  next
    case 2
    then show ?thesis
      using assms by (simp add: shm_rw_main_def prim_defs Let_def SHARE_SIZE_def proj_simps)
  next
    case 3
    from assms(1) 3 show ?thesis
    proof (cases rule: shm_rw_main_run[of e w])
      case pass
      then show ?thesis using 3
        by (simp add: assms(2) proj_simps shm_rw_prologue_proj shm_rw_cleanup_proj)
           (simp add: shm_rw_cleanup_def)
    next
      case (fail k v)
      then show ?thesis using 3
        by (simp add: assms(2) proj_simps shm_rw_prologue_proj shm_rw_cleanup_proj)
           (simp add: shm_rw_cleanup_def)
    qed
  qed
  with fsq sf show ?thesis by blast
qed

theorem region_mapper_cleanup_witness:
  "0 \<le> open_ret calm_env SHARE_FILE \<and> trace fresh_world = [] \<and> unlink_ok calm_env
   \<and> syscalls (trace (snd (shm_rw_main calm_env fresh_world))) =
        [Open SHARE_FILE, Ftruncate 3 1024, Mmap 1024 3 0, Munmap 0x7F0000000000 1024,
         Close 3, Unlink SHARE_FILE]
   \<and> last (trace (snd (shm_rw_main calm_env fresh_world))) = Unlink SHARE_FILE
   \<and> SHARE_FILE \<notin> fs (snd (shm_rw_main calm_env fresh_world))"
proof -
  have h: "0 \<le> open_ret calm_env SHARE_FILE" "trace fresh_world = []"
    by (simp_all add: calm_env_def fresh_world_def SHARE_FILE_def)
  have v: "unlink_ok calm_env" "open_ret calm_env SHARE_FILE = 3" "\<not> ftruncate_ret calm_env < 0"
    "mmap_ret calm_env SHARE_FILE = 0x7F0000000000" "(0x7F0000000000 :: u64) \<noteq> MAP_FAILED"
    by (simp_all add: calm_env_def SHARE_FILE_def MAP_FAILED_def)
  show ?thesis
    using region_mapper_cleanup [OF h] h v by simp
qed

text \<open>
  C7 as stated fails: on \<open>stuck_unlink_env\<close> the backing file is created, every word
  verifies, the program ends with its \<^verbatim>\<open>unlink\<close> call and exits with code 0, and the file
  \<^verbatim>\<open>/tmp/simbricks_shm_test\<close> is still on disk.
\<close>

theorem region_mapper_leaves_file_when_unlink_fails:
  "0 \<le> open_ret stuck_unlink_env SHARE_FILE
   \<and> SHARE_FILE \<notin> fs fresh_world
   \<and> fst (shm_rw_main stuck_unlink_env fresh_world) = 0
   \<and> last (trace (snd (shm_rw_main stuck_unlink_env fresh_world))) = Unlink SHARE_FILE
   \<and> SHARE_FILE \<in> fs (snd (shm_rw_main stuck_unlink_env fresh_world))"
proof -
  have h: "0 \<le> open_ret stuck_unlink_env SHARE_FILE" "0 \<le> ftruncate_ret stuck_unlink_env"
    "mmap_ret stuck_unlink_env SHARE_FILE \<noteq> MAP_FAILED"
    by (simp_all add: stuck_unlink_env_def calm_env_def SHARE_FILE_def MAP_FAILED_def)
  have q: "\<forall>k. other_writer stuck_unlink_env k = (\<lambda>m. m)"
    by (simp add: stuck_unlink_env_def calm_env_def)
  have u: "\<not> unlink_ok stuck_unlink_env"
    by (simp add: stuck_unlink_env_def)
  have w0: "SHARE_FILE \<notin> fs fresh_world" "trace fresh_world = []"
    by (simp_all add: fresh_world_def)
  have code: "fst (shm_rw_main stuck_unlink_env fresh_world) = 0"
    by (rule shm_rw_main_quiet[OF h q])
  have there: "SHARE_FILE \<in> fs (snd (shm_rw_main stuck_unlink_env fresh_world))"
    by (simp add: shm_rw_main_fs[OF h(1)] u)
  from h have "last (trace (snd (shm_rw_main stuck_unlink_env fresh_world))) = Unlink SHARE_FILE"
  proof (cases rule: shm_rw_main_run[of stuck_unlink_env fresh_world])
    case pass
    then show ?thesis by (simp add: shm_rw_cleanup_def)
  next
    case (fail k v)
    then show ?thesis by (simp add: shm_rw_cleanup_def)
  qed
  with h(1) w0(1) code there show ?thesis by simp
qed




text \<open>
  C9. In a run of the Fixed-Address Mapper that reaches the mapped state, the stores are the
  test value to word 0, the four sweep values to words 0..3 and, last, the recorded original
  value to word 0: nothing is written back to words 1, 2 and 3. When no other writer touches
  these three words, they hold \<open>0xDEADBEEF00000001\<close>, \<open>0xDEADBEEF00000002\<close> and
  \<open>0xDEADBEEF00000003\<close> at exit.
\<close>

theorem fixed_addr_restore_only_word0:
  assumes "reaches_mapped e" and "trace w = []"
  shows "stores (trace (snd (fixed_addr_main e junk w))) =
           [(0, 0xDEADBEEFCAFEBABE), (0, 0xDEADBEEF00000000), (1, 0xDEADBEEF00000001),
            (2, 0xDEADBEEF00000002), (3, 0xDEADBEEF00000003),
            (0, other_writer e (clock w) (mem w) 0)]
       \<and> ((\<forall>k m. other_writer e k m 1 = m 1 \<and> other_writer e k m 2 = m 2 \<and> other_writer e k m 3 = m 3) \<longrightarrow>
            mem (snd (fixed_addr_main e junk w)) 1 = 0xDEADBEEF00000001 \<and>
            mem (snd (fixed_addr_main e junk w)) 2 = 0xDEADBEEF00000002 \<and>
            mem (snd (fixed_addr_main e junk w)) 3 = 0xDEADBEEF00000003)"
proof -
  have p: "test_pattern 0 = 0xDEADBEEF00000000" "test_pattern 1 = 0xDEADBEEF00000001"
    "test_pattern 2 = 0xDEADBEEF00000002" "test_pattern 3 = 0xDEADBEEF00000003"
    "test_pattern (Suc 0) = 0xDEADBEEF00000001"
    by (simp_all add: test_pattern_def)
  from assms(1) obtain rv v0 v1 v2 v3 where r:
    "trace (snd (fixed_addr_main e junk w)) =
       trace w @ fixed_addr_setup_events e @
       fixed_addr_mapped_events (fixed_addr_fd e) (fixed_addr_ptr e) (other_writer e (clock w) (mem w) 0)
         rv v0 v1 v2 v3 (takes_fallback e \<or> sim_file \<in> fs w)"
    by (rule fixed_addr_main_run)
  have st: "stores (trace (snd (fixed_addr_main e junk w))) =
           [(0, 0xDEADBEEFCAFEBABE), (0, 0xDEADBEEF00000000), (1, 0xDEADBEEF00000001),
            (2, 0xDEADBEEF00000002), (3, 0xDEADBEEF00000003),
            (0, other_writer e (clock w) (mem w) 0)]"
    by (simp add: r assms(2) proj_simps fixed_addr_setup_events_proj fixed_addr_mapped_events_proj
        p TEST_VALUE_def)
  have "mem (snd (fixed_addr_main e junk w)) 1 = 0xDEADBEEF00000001 \<and>
        mem (snd (fixed_addr_main e junk w)) 2 = 0xDEADBEEF00000002 \<and>
        mem (snd (fixed_addr_main e junk w)) 3 = 0xDEADBEEF00000003"
    if "\<forall>k m. other_writer e k m 1 = m 1 \<and> other_writer e k m 2 = m 2 \<and> other_writer e k m 3 = m 3"
    using fixed_addr_mapped_mem123[OF that] by (simp add: fixed_addr_main_mapped[OF assms(1)] p)
  with st show ?thesis by blast
qed

theorem fixed_addr_restore_only_word0_witness:
  "reaches_mapped calm_env \<and> trace used_world = []
   \<and> (\<forall>k m. other_writer calm_env k m 1 = m 1 \<and> other_writer calm_env k m 2 = m 2
          \<and> other_writer calm_env k m 3 = m 3)
   \<and> stores (trace (snd (fixed_addr_main calm_env 0 used_world))) =
           [(0, 0xDEADBEEFCAFEBABE), (0, 0xDEADBEEF00000000), (1, 0xDEADBEEF00000001),
            (2, 0xDEADBEEF00000002), (3, 0xDEADBEEF00000003), (0, 0x1122334455667788)]
   \<and> mem used_world 1 = 0x1122334455667788
   \<and> mem (snd (fixed_addr_main calm_env 0 used_world)) 1 = 0xDEADBEEF00000001
   \<and> mem (snd (fixed_addr_main calm_env 0 used_world)) 2 = 0xDEADBEEF00000002
   \<and> mem (snd (fixed_addr_main calm_env 0 used_world)) 3 = 0xDEADBEEF00000003"
proof -
  have h: "reaches_mapped calm_env" "trace used_world = []"
    by (simp_all add: reaches_mapped_calm used_world_def fresh_world_def)
  have q: "\<forall>k m. other_writer calm_env k m 1 = m 1 \<and> other_writer calm_env k m 2 = m 2
          \<and> other_writer calm_env k m 3 = m 3"
    by (simp add: calm_env_def)
  have v: "mem used_world 1 = 0x1122334455667788"
    "other_writer calm_env (clock used_world) (mem used_world) 0 = 0x1122334455667788"
    by (simp_all add: calm_env_def used_world_def fresh_world_def)
  show ?thesis
    using fixed_addr_restore_only_word0 [OF h, of 0] h q v by simp
qed

text \<open>
  C10. In a run of the Region Mapper whose mapping was established, the exit code is 0 when
  the 128 words read back are the pattern and 1 otherwise. Whatever \<^verbatim>\<open>munmap\<close>,
  \<^verbatim>\<open>close\<close> and \<^verbatim>\<open>unlink\<close> return (\<open>a\<close>, \<open>b\<close>, and success or failure \<open>c\<close>), the exit code
  and the whole trace, in particular everything printed, are the same; and nothing follows
  the PASS or FAIL line but the three cleanup calls.
\<close>

theorem region_mapper_exit_code:
  assumes "0 \<le> open_ret e SHARE_FILE" and "0 \<le> ftruncate_ret e"
    and "mmap_ret e SHARE_FILE \<noteq> MAP_FAILED" and "trace w = []"
  shows "fst (shm_rw_main e w) =
           (if loads (trace (snd (shm_rw_main e w))) = map (\<lambda>i. (i, test_pattern i)) [0..<SHARE_SIZE div 8]
            then 0 else 1)
       \<and> fst (shm_rw_main (e\<lparr>munmap_ret := a, close_ret := b, unlink_ok := c\<rparr>) w) = fst (shm_rw_main e w)
       \<and> trace (snd (shm_rw_main (e\<lparr>munmap_ret := a, close_ret := b, unlink_ok := c\<rparr>) w)) =
           trace (snd (shm_rw_main e w))
       \<and> (\<exists>pre. trace (snd (shm_rw_main e w)) = pre @
            [if fst (shm_rw_main e w) = 0
             then Printf ''[shm_rw_syscall] PASS: all %d bytes match\<newline>'' [AInt 1024]
             else Printf ''[shm_rw_syscall] FAIL: data mismatch\<newline>'' [],
             Munmap (mmap_ret e SHARE_FILE) 1024, Close (open_ret e SHARE_FILE), Unlink SHARE_FILE])"
proof -
  have "fst (shm_rw_main e w) =
           (if loads (trace (snd (shm_rw_main e w))) = map (\<lambda>i. (i, test_pattern i)) [0..<128]
            then 0 else 1)
       \<and> (\<exists>pre. trace (snd (shm_rw_main e w)) = pre @
            [if fst (shm_rw_main e w) = 0
             then Printf ''[shm_rw_syscall] PASS: all %d bytes match\<newline>'' [AInt 1024]
             else Printf ''[shm_rw_syscall] FAIL: data mismatch\<newline>'' [],
             Munmap (mmap_ret e SHARE_FILE) 1024, Close (open_ret e SHARE_FILE), Unlink SHARE_FILE])"
    using assms(1-3)
  proof (cases rule: shm_rw_main_run[of e w])
    case pass
    have "loads (trace (snd (shm_rw_main e w))) = map (\<lambda>i. (i, test_pattern i)) [0..<128]"
      by (simp add: pass assms(4) proj_simps shm_rw_prologue_proj shm_rw_cleanup_proj)
    moreover have "trace (snd (shm_rw_main e w)) =
        (shm_rw_prologue e @ map (\<lambda>j. Load j (test_pattern j)) [0..<128]) @
        [Printf ''[shm_rw_syscall] PASS: all %d bytes match\<newline>'' [AInt 1024],
         Munmap (mmap_ret e SHARE_FILE) 1024, Close (open_ret e SHARE_FILE), Unlink SHARE_FILE]"
      by (simp add: pass assms(4) shm_rw_cleanup_def)
    ultimately show ?thesis using pass(1) by (intro conjI exI) simp_all
  next
    case (fail k v)
    have ld: "loads (trace (snd (shm_rw_main e w))) = map (\<lambda>i. (i, test_pattern i)) [0..<k] @ [(k, v)]"
      by (simp add: fail assms(4) proj_simps shm_rw_prologue_proj shm_rw_cleanup_proj)
    have ne: "loads (trace (snd (shm_rw_main e w))) \<noteq> map (\<lambda>i. (i, test_pattern i)) [0..<128]"
    proof
      assume eq: "loads (trace (snd (shm_rw_main e w))) = map (\<lambda>i. (i, test_pattern i)) [0..<128]"
      have "(k, v) \<in> set (loads (trace (snd (shm_rw_main e w))))" by (simp add: ld)
      then have "v = test_pattern k" unfolding eq by auto
      with fail(2) show False by simp
    qed
    have "trace (snd (shm_rw_main e w)) =
        (shm_rw_prologue e @ map (\<lambda>j. Load j (test_pattern j)) [0..<k] @
         [Load k v,
          Printf ''[shm_rw_syscall] Mismatch at index %zu: expected 0x%016llX, got 0x%016llX\<newline>''
            [ASize k, AHex (test_pattern k), AHex v]]) @
        [Printf ''[shm_rw_syscall] FAIL: data mismatch\<newline>'' [],
         Munmap (mmap_ret e SHARE_FILE) 1024, Close (open_ret e SHARE_FILE), Unlink SHARE_FILE]"
      by (simp add: fail assms(4) shm_rw_cleanup_def)
    then show ?thesis using fail(3) ne by (intro conjI exI) simp_all
  qed
  then show ?thesis
    unfolding nwords
    by (intro conjI shm_rw_main_ignores_cleanup_results[OF assms(1-3)]) (erule conjunct1, erule conjunct2)
qed

theorem region_mapper_exit_code_witness:
  "0 \<le> open_ret calm_env SHARE_FILE \<and> 0 \<le> ftruncate_ret calm_env
   \<and> mmap_ret calm_env SHARE_FILE \<noteq> MAP_FAILED \<and> trace fresh_world = []
   \<and> fst (shm_rw_main (calm_env\<lparr>munmap_ret := - 1, close_ret := - 1, unlink_ok := False\<rparr>) fresh_world) = 0
   \<and> fst (shm_rw_main calm_env fresh_world) = 0
   \<and> trace (snd (shm_rw_main (calm_env\<lparr>munmap_ret := - 1, close_ret := - 1, unlink_ok := False\<rparr>) fresh_world)) =
       trace (snd (shm_rw_main calm_env fresh_world))
   \<and> loads (trace (snd (shm_rw_main calm_env fresh_world))) =
       map (\<lambda>i. (i, test_pattern i)) [0..<SHARE_SIZE div 8]"
proof -
  have h: "0 \<le> open_ret calm_env SHARE_FILE" "0 \<le> ftruncate_ret calm_env"
    "mmap_ret calm_env SHARE_FILE \<noteq> MAP_FAILED" "trace fresh_world = []"
    by (simp_all add: calm_env_def fresh_world_def SHARE_FILE_def MAP_FAILED_def)
  have q: "\<forall>k. other_writer calm_env k = (\<lambda>m. m)"
    by (simp add: calm_env_def)
  have z: "fst (shm_rw_main calm_env fresh_world) = 0"
    using shm_rw_main_quiet[OF h(1-3) q] .
  note t = region_mapper_exit_code [OF h, where a="- 1" and b="- 1" and c=False]
  have "loads (trace (snd (shm_rw_main calm_env fresh_world))) =
       map (\<lambda>i. (i, test_pattern i)) [0..<SHARE_SIZE div 8]"
    using t z by (metis zero_neq_one)
  with t z h show ?thesis by simp
qed

end
